theory Spec2Isabelle
  imports Complex_Main "HOL-Library.Sublist"
begin

section \<open>Python values used by the converter\<close>

text \<open>
  The converter \<^verbatim>\<open>util/pptx_to_html.py\<close> turns a parsed slide deck into one HTML
  document.  Its functions are embedded here one by one.  Exceptions are values, log
  records and file-system writes are collected in a trace of events, and the two
  library calls whose result depends on the bytes of an embedded picture (base64 and
  the imaging library) are fields of an environment record, as is the text Python
  prints for a float.
\<close>

text \<open>
  An exception is its class and the text \<open>str\<close> gives for it.  \<open>OSError\<close> stands for
  that class and its subclasses, the only ones the renderer catches, and
  \<open>OtherException\<close> for every class that is none of the four named.
\<close>

datatype exn_class = OSError | TypeError | OverflowError | ZeroDivisionError | OtherException

datatype py_exn = Exn exn_class string

fun exn_class_of :: "py_exn \<Rightarrow> exn_class" where
  "exn_class_of (Exn c m) = c"

fun exn_str :: "py_exn \<Rightarrow> string" where
  "exn_str (Exn c m) = m"

datatype event =
    LogInfo string
  | LogWarning string
  | LogError string
  | MakeDirs string
  | SavePng string string
  | WriteFile string string

type_synonym 'a io = "event list \<times> (py_exn + 'a)"

definition ret :: "'a \<Rightarrow> 'a io" where
  "ret x = ([], Inr x)"

definition raise :: "py_exn \<Rightarrow> 'a io" where
  "raise e = ([], Inl e)"

definition bind_io :: "'a io \<Rightarrow> ('a \<Rightarrow> 'b io) \<Rightarrow> 'b io" where
  "bind_io m f = (case m of
      (evs, Inl e) \<Rightarrow> (evs, Inl e)
    | (evs, Inr x) \<Rightarrow> (case f x of (evs', r) \<Rightarrow> (evs @ evs', r)))"

definition bind_exn :: "py_exn + 'a \<Rightarrow> ('a \<Rightarrow> py_exn + 'b) \<Rightarrow> py_exn + 'b" where
  "bind_exn m f = (case m of Inl e \<Rightarrow> Inl e | Inr x \<Rightarrow> f x)"

record py_env =
  b64encode :: "string \<Rightarrow> string"
  b64decode :: "string \<Rightarrow> py_exn + string"
  image_save :: "string \<Rightarrow> string \<Rightarrow> py_exn option"
  float_str :: "rat \<Rightarrow> string"

subsection \<open>Integers and strings\<close>

abbreviation (input) apos :: string where
  "apos \<equiv> [CHR 0x27]"

definition digit_char :: "int \<Rightarrow> char" where
  "digit_char d = ''0123456789abcdef'' ! nat d"

function str_digits :: "int \<Rightarrow> string" where
  "str_digits n = (if n < 10 then [digit_char n] else str_digits (n div 10) @ [digit_char (n mod 10)])"
  by pat_completeness auto
termination by (relation "measure nat") auto

declare str_digits.simps [simp del]

definition str_int :: "int \<Rightarrow> string" where
  "str_int n = (if n < 0 then ''-'' @ str_digits (- n) else str_digits n)"

function hex_digits :: "int \<Rightarrow> string" where
  "hex_digits n = (if n < 16 then [digit_char n] else hex_digits (n div 16) @ [digit_char (n mod 16)])"
  by pat_completeness auto
termination by (relation "measure nat") auto

declare hex_digits.simps [simp del]

definition format_02x :: "nat \<Rightarrow> string" where
  "format_02x n = (let h = hex_digits (int n) in replicate (2 - length h) (CHR ''0'') @ h)"

definition str_opt :: "string option \<Rightarrow> string" where
  "str_opt v = (case v of None \<Rightarrow> ''None'' | Some s \<Rightarrow> s)"

definition str_int_opt :: "int option \<Rightarrow> string" where
  "str_int_opt v = (case v of None \<Rightarrow> ''None'' | Some n \<Rightarrow> str_int n)"

definition truthy_str :: "string option \<Rightarrow> bool" where
  "truthy_str v = (case v of None \<Rightarrow> False | Some s \<Rightarrow> s \<noteq> [])"

definition os_path_join :: "string \<Rightarrow> string \<Rightarrow> string" where
  "os_path_join a b =
     (if b \<noteq> [] \<and> hd b = CHR ''/'' then b
      else if a = [] \<or> last a = CHR ''/'' then a @ b
      else a @ ''/'' @ b)"

definition os_path_dirname :: "string \<Rightarrow> string" where
  "os_path_dirname p =
     (let head = rev (dropWhile (\<lambda>c. c \<noteq> CHR ''/'') (rev p))
      in if head \<noteq> [] \<and> \<not> list_all (\<lambda>c. c = CHR ''/'') head
         then rev (dropWhile (\<lambda>c. c = CHR ''/'') (rev head)) else head)"

subsection \<open>Binary floating point\<close>

text \<open>
  A finite Python float is the rational number it denotes.  \<open>round53\<close> rounds a
  rational to the nearest number with a 53-bit significand, ties to even, which is what
  IEEE 754 binary64 division and multiplication return while the result stays in the
  normal range.  Every quotient the converter forms has an integer numerator and one of
  two fixed denominators, so it is zero or at least \<open>1 / 9144000\<close> in magnitude and
  never subnormal; a rounded result of magnitude \<open>2 ^ 1024\<close> or more is the overflow case.
\<close>

function bitlen :: "int \<Rightarrow> int" where
  "bitlen n = (if n \<le> 0 then 0 else 1 + bitlen (n div 2))"
  by pat_completeness auto
termination by (relation "measure nat") auto

declare bitlen.simps [simp del]

definition ilog2 :: "rat \<Rightarrow> int" where
  "ilog2 q = (case quotient_of q of (a, b) \<Rightarrow>
     let d = bitlen a - bitlen b
     in if 2 powi d \<le> q then d else d - 1)"

definition round_half_even :: "rat \<Rightarrow> int" where
  "round_half_even q = (let f = \<lfloor>q\<rfloor>; r = q - of_int f
     in if r < 1 / 2 then f else if 1 / 2 < r then f + 1 else if even f then f else f + 1)"

definition round53 :: "rat \<Rightarrow> rat" where
  "round53 q = (if q = 0 then 0 else
     let e = ilog2 \<bar>q\<bar> - 52; m = round_half_even (\<bar>q\<bar> / 2 powi e)
     in sgn q * of_int m * 2 powi e)"

definition overflows :: "rat \<Rightarrow> bool" where
  "overflows p = (p \<noteq> 0 \<and> 1024 \<le> ilog2 \<bar>p\<bar>)"

datatype pyfloat = Fin rat | PosInf | NegInf

definition true_div :: "int \<Rightarrow> int \<Rightarrow> py_exn + rat" where
  "true_div a b =
     (if b = 0 then Inl (Exn ZeroDivisionError ''division by zero'')
      else let q = round53 (of_int a / of_int b)
           in if overflows q
              then Inl (Exn OverflowError ''integer division result too large for a float'')
              else Inr q)"

definition float_mul :: "rat \<Rightarrow> rat \<Rightarrow> pyfloat" where
  "float_mul x y = (let p = round53 (x * y)
     in if overflows p then (if 0 < p then PosInf else NegInf) else Fin p)"

definition format_2f :: "pyfloat \<Rightarrow> string" where
  "format_2f x = (case x of
      PosInf \<Rightarrow> ''inf''
    | NegInf \<Rightarrow> ''-inf''
    | Fin q \<Rightarrow> (let n = round_half_even (\<bar>q\<bar> * 100)
               in (if q < 0 then ''-'' else '''') @ str_digits (n div 100) @ ''.'' @
                  [digit_char (n div 10 mod 10), digit_char (n mod 10)]))"

section \<open>The intermediate representation\<close>

text \<open>
  \<open>extract_slide_data\<close> builds one dictionary per shape; \<open>process_slide\<close> receives the
  list after a JSON round trip, which returns the same integers, floats, strings,
  booleans, lists and \<open>None\<close>.  A record field stands for a dictionary key.  Keys that
  clash with a name of the logic carry a suffix: \<open>top_emu\<close> is the key \<open>top\<close>,
  \<open>image_b64\<close> the key \<open>image\<close> and \<open>run_text\<close> the key \<open>text\<close>.  The key
  \<open>fill_color\<close> is read with \<open>dict.get\<close> and a default, so its field tells an absent
  key from a key bound to \<open>None\<close>.
\<close>

datatype dict_entry = KeyAbsent | Null | Str string

record run_data =
  run_text :: string
  font_name :: "string option"
  font_size :: "rat option"
  bold :: "bool option"
  italic :: "bool option"
  color :: "string option"
  hyperlink :: "string option"

record paragraph_data =
  alignment :: "int option"
  is_title :: bool
  runs :: "run_data list"

record shape_data =
  shape_type :: int
  left :: int
  top_emu :: int
  width :: int
  height :: int
  has_text_frame :: bool
  text_frame :: "paragraph_data list option"
  image_b64 :: "string option"
  image_format :: "string option"
  fill_color :: dict_entry

definition MSO_SHAPE_TYPE_PICTURE :: int where
  "MSO_SHAPE_TYPE_PICTURE = 13"

section \<open>Rendering one shape\<close>

definition percent :: "int \<Rightarrow> int \<Rightarrow> py_exn + string" where
  "percent v ref = bind_exn (true_div v ref) (\<lambda>q. Inr (format_2f (float_mul q 100) @ ''%''))"

definition common_style :: "shape_data \<Rightarrow> py_exn + string" where
  "common_style sd =
     bind_exn (percent (left sd) 9144000) (\<lambda>left_percent.
     bind_exn (percent (top_emu sd) 6858000) (\<lambda>top_percent.
     bind_exn (percent (width sd) 9144000) (\<lambda>width_percent.
     bind_exn (percent (height sd) 6858000) (\<lambda>height_percent.
       Inr (''left:'' @ left_percent @ '';top:'' @ top_percent @
            '';width:'' @ width_percent @ '';height:'' @ height_percent @ '';'')))))"

definition image_filename :: "nat \<Rightarrow> nat \<Rightarrow> string" where
  "image_filename slide_index shape_index =
     ''slide_'' @ str_int (int slide_index + 1) @ ''_image_'' @ str_int (int shape_index + 1) @ ''.png''"

definition img_fragment :: "string \<Rightarrow> string \<Rightarrow> string" where
  \<open>img_fragment filename style =
     ''<img src=\'images/'' @ filename @ ''\' class=\'absolute object-contain\' style='' @ apos @ style @ ''\'/>''\<close>

definition failure_fragment :: "nat \<Rightarrow> nat \<Rightarrow> string" where
  "failure_fragment slide_index shape_index =
     ''<p>[Image processing failed for slide '' @ str_int (int slide_index + 1) @
     '', shape '' @ str_int (int shape_index + 1) @ '']</p>''"

definition failure_warning :: "nat \<Rightarrow> nat \<Rightarrow> py_exn \<Rightarrow> string" where
  "failure_warning slide_index shape_index e =
     ''Failed to process image on slide '' @ str_int (int slide_index + 1) @
     '', shape '' @ str_int (int shape_index + 1) @ '': '' @ exn_str e"

definition run_style :: "py_env \<Rightarrow> run_data \<Rightarrow> string" where
  "run_style env run =
     ''font-family: '' @ str_opt (font_name run) @ ''; '' @
     (case font_size run of
        None \<Rightarrow> ''''
      | Some x \<Rightarrow> if x \<noteq> 0 then ''font-size: '' @ float_str env x @ ''pt; '' else '''') @
     (if bold run = Some True then ''font-weight: bold; '' else '''') @
     (if italic run = Some True then ''font-style: italic; '' else '''') @
     (if truthy_str (color run) then ''color: '' @ str_opt (color run) @ ''; '' else '''')"

definition render_run :: "py_env \<Rightarrow> run_data \<Rightarrow> string" where
  \<open>render_run env run =
     (if truthy_str (hyperlink run)
      then ''<a href='' @ apos @ str_opt (hyperlink run) @ ''\' style='' @ apos @ run_style env run @ ''\'>'' @
           run_text run @ ''</a>''
      else ''<span style='' @ apos @ run_style env run @ ''\'>'' @ run_text run @ ''</span>'')\<close>

definition render_paragraph :: "py_env \<Rightarrow> paragraph_data \<Rightarrow> string" where
  \<open>render_paragraph env paragraph =
     (let para_style = ''text-align: '' @ str_int_opt (alignment paragraph) @ '';'';
          para_content = concat (map (render_run env) (runs paragraph))
      in if is_title paragraph
         then ''<h1 class=\'title\' style='' @ apos @ para_style @ ''\'>'' @ para_content @ ''</h1>''
         else ''<p class=\'paragraph\' style='' @ apos @ para_style @ ''\'>'' @ para_content @ ''</p>'')\<close>

definition bg_color :: "dict_entry \<Rightarrow> string" where
  "bg_color entry =
     ''background-color: '' @
     (case entry of KeyAbsent \<Rightarrow> ''transparent'' | Null \<Rightarrow> ''None'' | Str c \<Rightarrow> c) @ '';''"

definition text_fragment :: "py_env \<Rightarrow> string \<Rightarrow> shape_data \<Rightarrow> paragraph_data list \<Rightarrow> string" where
  \<open>text_fragment env style sd paragraphs =
     ''<div class=\'absolute flex flex-col items-start justify-start\' style='' @ apos @ style @
     bg_color (fill_color sd) @ ''\'>'' @ concat (map (render_paragraph env) paragraphs) @ ''</div>''\<close>

definition process_shape_data ::
  "py_env \<Rightarrow> nat \<Rightarrow> shape_data \<Rightarrow> string \<Rightarrow> nat \<Rightarrow> bool \<Rightarrow> string io" where
  "process_shape_data env shape_index sd image_dir slide_index ignore_images =
     (case common_style sd of
        Inl e \<Rightarrow> raise e
      | Inr style \<Rightarrow>
          if shape_type sd = MSO_SHAPE_TYPE_PICTURE then
            let filename = image_filename slide_index shape_index in
            if \<not> ignore_images then
              (case image_b64 sd of
                 None \<Rightarrow> raise (Exn TypeError (''argument should be a bytes-like object or ASCII string, not '' @
                           apos @ ''NoneType'' @ apos))
               | Some b64 \<Rightarrow>
                  (case b64decode env b64 of
                     Inl e \<Rightarrow> raise e
                   | Inr image_bytes \<Rightarrow>
                      let image_path = os_path_join image_dir filename in
                      (case image_save env image_bytes image_path of
                         None \<Rightarrow> ([SavePng image_path image_bytes], Inr (img_fragment filename style))
                       | Some e \<Rightarrow>
                          if exn_class_of e = OSError
                          then ([LogWarning (failure_warning slide_index shape_index e)],
                                Inr (failure_fragment slide_index shape_index))
                          else raise e)))
            else ret (img_fragment filename style)
          else if has_text_frame sd then
            (case text_frame sd of
               None \<Rightarrow> raise (Exn TypeError (apos @ ''NoneType'' @ apos @ '' object is not iterable''))
             | Some paragraphs \<Rightarrow> ret (text_fragment env style sd paragraphs))
          else ret '''')"

fun process_shapes ::
  "py_env \<Rightarrow> nat \<Rightarrow> shape_data list \<Rightarrow> string \<Rightarrow> nat \<Rightarrow> bool \<Rightarrow> string list io" where
  "process_shapes env shape_index [] image_dir slide_index ignore_images = ret []"
| "process_shapes env shape_index (sd # rest) image_dir slide_index ignore_images =
     bind_io (process_shape_data env shape_index sd image_dir slide_index ignore_images) (\<lambda>fragment.
     bind_io (process_shapes env (Suc shape_index) rest image_dir slide_index ignore_images) (\<lambda>fragments.
       ret (fragment # fragments)))"

definition process_slide :: "py_env \<Rightarrow> shape_data list \<Rightarrow> string \<Rightarrow> nat \<Rightarrow> bool \<Rightarrow> string io" where
  "process_slide env slide_data image_dir slide_index ignore_images =
     bind_io (process_shapes env 0 slide_data image_dir slide_index ignore_images) (\<lambda>fragments.
       ret (concat fragments))"

section \<open>Extraction from the document model\<close>

text \<open>
  The parsed presentation is an external object graph.  The records below hold what the
  extractor reads from it.  Reading a paragraph or a run of a text frame may raise, which
  is the case \<open>extract_text_frame\<close> guards against: such an element is \<open>Inl\<close> of the
  exception.  \<open>src_color\<close> is \<open>None\<close> when the font colour is absent, has no \<open>rgb\<close>
  attribute or has \<open>rgb = None\<close>; \<open>src_fill\<close> is \<open>None\<close> for a shape without a
  \<open>fill\<close> attribute, and \<open>fore_color_rgb\<close> is what \<open>fill.fore_color.rgb\<close> evaluates
  to, \<open>None\<close> where the fill has no RGB colour.  The remaining attributes of a shape
  are read without failure.
\<close>

type_synonym rgb = "nat \<times> nat \<times> nat"

datatype mso_fill = BACKGROUND | GRADIENT | GROUP | PATTERNED | PICTURE | SOLID | TEXTURED

record fill_format =
  fill_type :: "mso_fill option"
  fore_color_rgb :: "rgb option"

record pptx_run =
  src_text :: string
  src_font_name :: "string option"
  src_font_size :: "int option"
  src_bold :: "bool option"
  src_italic :: "bool option"
  src_color :: "rgb option"
  src_hyperlink_address :: "string option"

record pptx_paragraph =
  src_alignment :: "int option"
  src_level :: int
  src_runs :: "(py_exn + pptx_run) list"

record pptx_shape =
  src_shape_type :: int
  src_left :: int
  src_top :: int
  src_width :: int
  src_height :: int
  src_has_text_frame :: bool
  src_text_frame :: "(py_exn + pptx_paragraph) list"
  src_image_blob :: string
  src_image_ext :: string
  src_fill :: "fill_format option"

definition rgb_to_hex :: "rgb option \<Rightarrow> string option" where
  "rgb_to_hex c = (case c of
      None \<Rightarrow> None
    | Some (r, g, b) \<Rightarrow> Some (''#'' @ format_02x r @ format_02x g @ format_02x b))"

definition get_fill_color :: "pptx_shape \<Rightarrow> string option" where
  "get_fill_color shape = (case src_fill shape of
      None \<Rightarrow> None
    | Some fill \<Rightarrow>
        if fill_type fill = Some SOLID then
          (case fore_color_rgb fill of None \<Rightarrow> None | Some c \<Rightarrow> rgb_to_hex (Some c))
        else if fill_type fill = Some BACKGROUND then Some ''transparent''
        else None)"

definition length_pt :: "int \<Rightarrow> rat" where
  "length_pt emu = round53 (round53 (of_int emu) / 12700)"

definition extract_run :: "pptx_run \<Rightarrow> run_data" where
  "extract_run run = \<lparr>
     run_text = src_text run,
     font_name = src_font_name run,
     font_size = (case src_font_size run of
                    None \<Rightarrow> None
                  | Some sz \<Rightarrow> if sz \<noteq> 0 then Some (length_pt sz) else None),
     bold = src_bold run,
     italic = src_italic run,
     color = rgb_to_hex (src_color run),
     hyperlink = src_hyperlink_address run \<rparr>"

fun collect :: "('a \<Rightarrow> py_exn + 'b) \<Rightarrow> (py_exn + 'a) list \<Rightarrow> py_exn + 'b list" where
  "collect f [] = Inr []"
| "collect f (Inl e # rest) = Inl e"
| "collect f (Inr x # rest) =
     bind_exn (f x) (\<lambda>y. bind_exn (collect f rest) (\<lambda>ys. Inr (y # ys)))"

definition extract_paragraph :: "pptx_paragraph \<Rightarrow> py_exn + paragraph_data" where
  "extract_paragraph paragraph =
     bind_exn (collect (\<lambda>run. Inr (extract_run run)) (src_runs paragraph)) (\<lambda>rs.
       Inr \<lparr> alignment = src_alignment paragraph,
             is_title = (src_level paragraph = 0),
             runs = rs \<rparr>)"

definition extract_text_frame :: "(py_exn + pptx_paragraph) list \<Rightarrow> event list \<times> paragraph_data list" where
  "extract_text_frame frame = (case collect extract_paragraph frame of
      Inr paragraphs \<Rightarrow> ([], paragraphs)
    | Inl e \<Rightarrow> ([LogWarning (''Error extracting text frame: '' @ exn_str e)], []))"

definition extract_shape :: "py_env \<Rightarrow> pptx_shape \<Rightarrow> event list \<times> shape_data" where
  "extract_shape env shape =
     (let (evs, frame) =
            (if src_has_text_frame shape
             then (case extract_text_frame (src_text_frame shape) of (evs, ps) \<Rightarrow> (evs, Some ps))
             else ([], None));
          picture = (src_shape_type shape = MSO_SHAPE_TYPE_PICTURE)
      in (evs, \<lparr>
           shape_type = src_shape_type shape,
           left = src_left shape,
           top_emu = src_top shape,
           width = src_width shape,
           height = src_height shape,
           has_text_frame = src_has_text_frame shape,
           text_frame = frame,
           image_b64 = (if picture then Some (b64encode env (src_image_blob shape)) else None),
           image_format = (if picture then Some (src_image_ext shape) else None),
           fill_color = (case get_fill_color shape of None \<Rightarrow> Null | Some c \<Rightarrow> Str c) \<rparr>))"

definition extract_slide_data :: "py_env \<Rightarrow> pptx_shape list \<Rightarrow> event list \<times> shape_data list" where
  "extract_slide_data env slide =
     (concat (map (\<lambda>shape. fst (extract_shape env shape)) slide),
      map (\<lambda>shape. snd (extract_shape env shape)) slide)"

section \<open>The worker pool and the document\<close>

text \<open>
  \<open>Pool.starmap\<close> runs one task per slide in worker processes and returns the results
  in the order of its argument list, or raises an exception of a failed task.  The order
  in which the tasks complete is the \<open>schedule\<close>, a list of task indices: the pool
  records each result under the index of its task, the events of the tasks appear in
  completion order, and the first failure to complete is the one raised.
\<close>

fun run_pool :: "'a io list \<Rightarrow> nat list \<Rightarrow> event list \<times> (nat \<times> (py_exn + 'a)) list" where
  "run_pool tasks [] = ([], [])"
| "run_pool tasks (i # schedule) =
     (if i < length tasks
      then (case tasks ! i of (evs, r) \<Rightarrow>
              (case run_pool tasks schedule of (evs', rs) \<Rightarrow> (evs @ evs', (i, r) # rs)))
      else run_pool tasks schedule)"

fun failures :: "(nat \<times> (py_exn + 'a)) list \<Rightarrow> py_exn list" where
  "failures [] = []"
| "failures ((i, Inl e) # rs) = e # failures rs"
| "failures ((i, Inr x) # rs) = failures rs"

definition result_at :: "(nat \<times> (py_exn + 'a)) list \<Rightarrow> nat \<Rightarrow> 'a list" where
  "result_at rs i = (case map_of rs i of Some (Inr x) \<Rightarrow> [x] | _ \<Rightarrow> [])"

definition pool_starmap :: "'a io list \<Rightarrow> nat list \<Rightarrow> 'a list io" where
  "pool_starmap tasks schedule = (case run_pool tasks schedule of (evs, rs) \<Rightarrow>
     (case failures rs of
        e # _ \<Rightarrow> (evs, Inl e)
      | [] \<Rightarrow> (evs, Inr (concat (map (result_at rs) [0..<length tasks])))))"

definition nl :: char where
  "nl = CHR 0x0A"

definition html_header :: string where
  \<open>html_header =
     [nl] @
     ''    <html>'' @ [nl] @
     ''    <head>'' @ [nl] @
     ''        <meta name="viewport" content="width=device-width, initial-scale=1.0">'' @ [nl] @
     ''        <script src="https://cdn.tailwindcss.com"></script>'' @ [nl] @
     ''        <style>'' @ [nl] @
     ''            body { margin: 0; padding: 0; }'' @ [nl] @
     ''            .slide-container { max-width: 1024px; margin: 0 auto; padding: 2rem; }'' @ [nl] @
     ''            .slide { position: relative; width: 100%; padding-top: 75%; margin-bottom: 2rem; }'' @ [nl] @
     ''            .slide-content { position: absolute; top: 0; left: 0; right: 0; bottom: 0; }'' @ [nl] @
     ''            .absolute { position: absolute; }'' @ [nl] @
     ''            .paragraph { margin-bottom: 0.5em; }'' @ [nl] @
     ''            .slide-content > div { max-height: none !important; overflow: visible !important; }'' @ [nl] @
     ''            .title { font-size: 1.15em; font-weight: bold; margin-bottom: 0.5em; }'' @ [nl] @
     ''            a { text-decoration: underline; color: blue; }'' @ [nl] @
     ''            a:hover { text-decoration: none; }'' @ [nl] @
     ''        </style>'' @ [nl] @
     ''    </head>'' @ [nl] @
     ''    <body class="bg-gray-100">'' @ [nl] @
     ''    <div class="slide-container">'' @ [nl] @
     ''    ''\<close>

definition html_footer :: string where
  "html_footer = ''</div></body></html>''"

definition slide_div :: "string \<Rightarrow> string" where
  \<open>slide_div content =
     ''<div class="slide bg-white shadow-lg rounded-lg"><div class="slide-content">'' @ content @
     ''</div></div>''\<close>

definition assemble :: "string list \<Rightarrow> string" where
  "assemble slide_contents = html_header @ concat (map slide_div slide_contents) @ html_footer"

definition extract_all :: "py_env \<Rightarrow> pptx_shape list list \<Rightarrow> event list \<times> shape_data list list" where
  "extract_all env slides =
     (concat (map (\<lambda>slide. fst (extract_slide_data env slide)) slides),
      map (\<lambda>slide. snd (extract_slide_data env slide)) slides)"

definition slide_tasks :: "py_env \<Rightarrow> shape_data list list \<Rightarrow> string \<Rightarrow> bool \<Rightarrow> string io list" where
  "slide_tasks env slide_data_list image_dir ignore_images =
     map (\<lambda>(idx, data). process_slide env data image_dir idx ignore_images)
         (zip [0..<length slide_data_list] slide_data_list)"

definition render_slides ::
  "py_env \<Rightarrow> shape_data list list \<Rightarrow> string \<Rightarrow> bool \<Rightarrow> nat list \<Rightarrow> event list \<times> string list" where
  "render_slides env slide_data_list image_dir ignore_images schedule =
     (case pool_starmap (slide_tasks env slide_data_list image_dir ignore_images) schedule of
        (evs, Inr slide_contents) \<Rightarrow> (evs, slide_contents)
      | (evs, Inl e) \<Rightarrow>
          (evs @ [LogError (''An error occurred during slide processing: '' @ exn_str e)], []))"

definition pptx_to_html ::
  "py_env \<Rightarrow> string \<Rightarrow> pptx_shape list list \<Rightarrow> string \<Rightarrow> bool \<Rightarrow> nat list \<Rightarrow> event list \<times> string" where
  "pptx_to_html env pptx_file slides output_file ignore_images schedule =
     (let output_dir = os_path_dirname output_file;
          image_dir = os_path_join output_dir ''images'';
          (extract_events, slide_data_list) = extract_all env slides;
          (render_events, slide_contents) =
             render_slides env slide_data_list image_dir ignore_images schedule;
          html_content = assemble slide_contents
      in ([LogInfo (''Opening PowerPoint file: '' @ pptx_file), MakeDirs image_dir,
           LogInfo ''Extracting slide data...''] @ extract_events @
          [LogInfo ''Processing slides...''] @ render_events @
          [LogInfo (''Writing HTML content to '' @ output_file), WriteFile output_file html_content],
          html_content))"

text \<open>
  A completion order of \<open>n\<close> tasks names every task index below \<open>n\<close> once.
  \<open>document_tasks\<close> is the task list \<open>pptx_to_html\<close> hands to the pool.
\<close>

definition completion_order :: "nat \<Rightarrow> nat list \<Rightarrow> bool" where
  "completion_order n schedule = (distinct schedule \<and> set schedule = {..<n})"

definition document_tasks :: "py_env \<Rightarrow> pptx_shape list list \<Rightarrow> string \<Rightarrow> bool \<Rightarrow> string io list" where
  "document_tasks env slides output_file ignore_images =
     slide_tasks env (snd (extract_all env slides))
       (os_path_join (os_path_dirname output_file) ''images'') ignore_images"

section \<open>Specification vocabulary\<close>

text \<open>
  \<open>percent_of v ref s\<close> says that the text \<open>s\<close> is a percentage with two decimal
  digits, an optional minus sign and a percent sign, whose number of hundredths \<open>n\<close>
  is the value \<open>v / ref * 100\<close> rounded to two decimals, up to the relative error of the
  two floating-point operations.  \<open>occurs_at_colon u v pre s\<close> scans \<open>s\<close> for a
  colon that has \<open>u\<close> right before it (in \<open>pre\<close> followed by \<open>s\<close>) and \<open>v\<close> right
  after it.
\<close>

definition percent_of :: "int \<Rightarrow> int \<Rightarrow> string \<Rightarrow> bool" where
  "percent_of v ref s = (\<exists>n. 0 \<le> n \<and>
     s = (if v < 0 then ''-'' else []) @ str_digits (n div 100) @ ''.'' @
         [digit_char (n div 10 mod 10), digit_char (n mod 10)] @ ''%'' \<and>
     str_digits (n div 100) \<noteq> [] \<and>
     set (str_digits (n div 100) @ [digit_char (n div 10 mod 10), digit_char (n mod 10)])
       \<subseteq> set ''0123456789'' \<and>
     \<bar>of_int n / 100 - \<bar>of_int v / of_int ref * 100 :: rat\<bar>\<bar>
       \<le> 1 / 200 + \<bar>of_int v / of_int ref * 100\<bar> / 2 ^ 51)"

fun occurs_at_colon :: "string \<Rightarrow> string \<Rightarrow> string \<Rightarrow> string \<Rightarrow> bool" where
  "occurs_at_colon u v pre [] = False"
| "occurs_at_colon u v pre (c # cs) =
     ((c = CHR '':'' \<and> suffix u pre \<and> prefix v cs) \<or> occurs_at_colon u v (pre @ [c]) cs)"

section \<open>Example inputs\<close>

text \<open>
  Concrete environments, shapes and decks at which the theorems below are evaluated.
  In \<open>env_ok\<close> the base64 codec is the identity and every image is saved; in
  \<open>env_oserror\<close> and \<open>env_bomb\<close> the imaging library raises an \<open>OSError\<close> and an
  exception of another class; in \<open>env_bad_base64\<close> the base64 decoder raises.
\<close>

definition env_ok :: py_env where
  "env_ok = \<lparr> b64encode = (\<lambda>s. s), b64decode = (\<lambda>s. Inr s), image_save = (\<lambda>b p. None),
              float_str = (\<lambda>x. str_int \<lfloor>x\<rfloor> @ ''.0'') \<rparr>"

definition title_run :: run_data where
  "title_run = \<lparr> run_text = ''Hello'', font_name = None, font_size = None, bold = Some True,
                 italic = Some False, color = None, hyperlink = None \<rparr>"

definition full_slide_shape :: shape_data where
  "full_slide_shape = \<lparr> shape_type = 17, left = 0, top_emu = 0, width = 9144000, height = 6858000,
     has_text_frame = True,
     text_frame = Some [\<lparr> alignment = None, is_title = True, runs = [title_run] \<rparr>],
     image_b64 = None, image_format = None, fill_color = Null \<rparr>"

definition picture_shape :: shape_data where
  "picture_shape = full_slide_shape \<lparr> shape_type := 13, image_b64 := Some ''iVBORw0KGgo='',
      image_format := Some ''png'' \<rparr>"

definition env_oserror :: py_env where
  "env_oserror = env_ok \<lparr> image_save := (\<lambda>b p. Some (Exn OSError ''cannot identify image file'')) \<rparr>"

definition env_bomb :: py_env where
  "env_bomb = env_ok \<lparr> image_save := (\<lambda>b p. Some (Exn OtherException ''Image size exceeds limit'')) \<rparr>"

definition text_shape_src :: pptx_shape where
  "text_shape_src = \<lparr> src_shape_type = 17, src_left = 0, src_top = 0, src_width = 9144000,
     src_height = 6858000, src_has_text_frame = True,
     src_text_frame = [Inr \<lparr> src_alignment = None, src_level = 0,
        src_runs = [Inr \<lparr> src_text = ''Hello'', src_font_name = None, src_font_size = None,
                          src_bold = Some True, src_italic = Some False, src_color = None,
                          src_hyperlink_address = None \<rparr>] \<rparr>],
     src_image_blob = [], src_image_ext = [],
     src_fill = Some \<lparr> fill_type = Some GRADIENT, fore_color_rgb = None \<rparr> \<rparr>"

definition hello_fragment :: string where
  \<open>hello_fragment =
     ''<div class=\'absolute flex flex-col items-start justify-start\' style='' @ apos @
        ''left:0.00%;top:0.00%;width:100.00%;height:100.00%;background-color: None;\'>'' @
        ''<h1 class=\'title\' style=\'text-align: None;\'>'' @
        ''<span style=\'font-family: None; font-weight: bold; \'>Hello</span></h1></div>''\<close>

definition raising_run :: "py_exn + pptx_run" where
  "raising_run = Inl (Exn OtherException ''malformed font element'')"

definition broken_text_src :: pptx_shape where
  "broken_text_src = text_shape_src \<lparr> src_text_frame :=
      [Inr \<lparr> src_alignment = Some 2, src_level = 1, src_runs = [raising_run] \<rparr>] \<rparr>"

definition picture_src :: pptx_shape where
  "picture_src = text_shape_src \<lparr> src_shape_type := 13, src_image_blob := ''iVBORw0KGgo='',
     src_image_ext := ''png'' \<rparr>"

definition three_slides :: "pptx_shape list list" where
  "three_slides = [[text_shape_src], [picture_src], []]"

definition two_slides :: "pptx_shape list list" where
  "two_slides = [[text_shape_src], [picture_src]]"

definition picture_style :: string where
  "picture_style = ''left:0.00%;top:0.00%;width:100.00%;height:100.00%;''"

definition injected_run :: run_data where
  "injected_run = \<lparr> run_text = ''Hello'', font_name = Some ''Arial; font-weight: bold;'',
     font_size = None, bold = Some False, italic = Some False, color = None, hyperlink = None \<rparr>"

definition env_bad_base64 :: py_env where
  "env_bad_base64 = env_ok \<lparr> b64decode := (\<lambda>s. Inl (Exn OtherException ''Incorrect padding'')) \<rparr>"

definition failing_deck :: "pptx_shape list list" where
  "failing_deck = [[text_shape_src], [text_shape_src, picture_src, text_shape_src]]"

section \<open>Properties of the number formatting\<close>

lemma digit_char_decimal:
  assumes "0 \<le> d" and "d < 10"
  shows "digit_char d \<in> set ''0123456789''"
proof -
  from assms have "d = 0 \<or> d = 1 \<or> d = 2 \<or> d = 3 \<or> d = 4 \<or> d = 5 \<or> d = 6 \<or> d = 7 \<or> d = 8 \<or> d = 9"
    by arith
  then show ?thesis by (auto simp: digit_char_def)
qed

lemma str_digits_decimal:
  "0 \<le> n \<Longrightarrow> set (str_digits n) \<subseteq> set ''0123456789''"
proof (induction n rule: str_digits.induct)
  case (1 n)
  show ?case
  proof (cases "n < 10")
    case True
    with 1 digit_char_decimal [of n] show ?thesis by (subst str_digits.simps) simp
  next
    case False
    with 1 have "set (str_digits (n div 10)) \<subseteq> set ''0123456789''" by simp
    moreover have "digit_char (n mod 10) \<in> set ''0123456789''"
      by (rule digit_char_decimal) simp_all
    ultimately show ?thesis using False by (subst str_digits.simps) simp
  qed
qed

lemma str_digits_nonempty: "str_digits n \<noteq> []"
  by (subst str_digits.simps) simp

lemma str_int_no_colon: "CHR '':'' \<notin> set (str_int n)"
proof -
  have "set (str_int n) \<subseteq> set ''-0123456789''"
    using str_digits_decimal [of n] str_digits_decimal [of "- n"]
    by (auto simp: str_int_def)
  then show ?thesis by auto
qed

lemma bitlen_bounds:
  "0 < n \<Longrightarrow> 0 < bitlen n \<and> 2 ^ nat (bitlen n - 1) \<le> n \<and> n < 2 ^ nat (bitlen n)"
proof (induction n rule: bitlen.induct)
  case (1 n)
  show ?case
  proof (cases "n div 2 = 0")
    case True
    with 1 have "n = 1" by arith
    have "bitlen 1 = 1" by (simp add: bitlen.simps [of 1] bitlen.simps [of 0])
    with \<open>n = 1\<close> show ?thesis by simp
  next
    case False
    with 1 have p: "0 < n div 2" by arith
    with 1 have ih: "0 < bitlen (n div 2)" "2 ^ nat (bitlen (n div 2) - 1) \<le> n div 2"
      "n div 2 < 2 ^ nat (bitlen (n div 2))" by simp_all
    have b: "bitlen n = 1 + bitlen (n div 2)" using 1 by (subst bitlen.simps) simp
    have e: "nat (bitlen n - 1) = Suc (nat (bitlen (n div 2) - 1))" "nat (bitlen n) = Suc (nat (bitlen (n div 2)))"
      using ih(1) b by simp_all
    have "2 * (n div 2) \<le> n" "n < 2 * (n div 2) + 2" by arith+
    with ih show ?thesis unfolding e by (simp add: b)
  qed
qed


lemma ilog2_bounds:
  assumes "0 < q"
  shows "2 powi (ilog2 q) \<le> q \<and> q < 2 powi (ilog2 q + 1)"
proof -
  obtain a b where ab: "quotient_of q = (a, b)" by fastforce
  then have b: "0 < b" and q: "q = of_int a / of_int b"
    by (simp_all add: quotient_of_denom_pos quotient_of_div)
  from assms q b have a: "0 < a" by (simp add: zero_less_divide_iff)
  define la lb where "la = bitlen a" and "lb = bitlen b"
  from bitlen_bounds [OF a] bitlen_bounds [OF b]
  have la: "0 < la" "2 ^ nat (la - 1) \<le> a" "a < 2 ^ nat la"
    and lb: "0 < lb" "2 ^ nat (lb - 1) \<le> b" "b < 2 ^ nat lb"
    by (simp_all add: la_def lb_def)
  have pa: "(2::rat) powi (la - 1) \<le> of_int a" "of_int a < (2::rat) powi la"
  proof -
    have "(2::rat) powi (la - 1) = of_int (2 ^ nat (la - 1))" using la(1) by (simp add: power_int_def)
    also have "\<dots> \<le> of_int a" using la(2) by (simp only: of_int_le_iff)
    finally show "(2::rat) powi (la - 1) \<le> of_int a" .
    have "(of_int a :: rat) < of_int (2 ^ nat la)" using la(3) by (simp only: of_int_less_iff)
    also have "\<dots> = 2 powi la" using la(1) by (simp add: power_int_def)
    finally show "of_int a < (2::rat) powi la" .
  qed
  have pb: "(2::rat) powi (lb - 1) \<le> of_int b" "of_int b < (2::rat) powi lb"
  proof -
    have "(2::rat) powi (lb - 1) = of_int (2 ^ nat (lb - 1))" using lb(1) by (simp add: power_int_def)
    also have "\<dots> \<le> of_int b" using lb(2) by (simp only: of_int_le_iff)
    finally show "(2::rat) powi (lb - 1) \<le> of_int b" .
    have "(of_int b :: rat) < of_int (2 ^ nat lb)" using lb(3) by (simp only: of_int_less_iff)
    also have "\<dots> = 2 powi lb" using lb(1) by (simp add: power_int_def)
    finally show "of_int b < (2::rat) powi lb" .
  qed
  have bpos: "(0::rat) < of_int b" using b by simp
  have p2: "\<And>k. (0::rat) < 2 powi k" by simp
  have lower: "(2::rat) powi (la - lb - 1) \<le> q"
  proof -
    have "la - lb - 1 = (la - 1) - lb" by simp
    then have "(2::rat) powi (la - lb - 1) = 2 powi (la - 1) / 2 powi lb"
      by (simp only: power_int_diff [of "2::rat" "la - 1" lb, OF disjI1] zero_neq_numeral
           not_False_eq_True)
    also have "\<dots> \<le> of_int a / 2 powi lb" using pa(1) by (simp add: divide_right_mono)
    also have "\<dots> \<le> of_int a / of_int b"
      using pb(2) a bpos by (intro divide_left_mono) (simp_all add: less_imp_le)
    finally show ?thesis by (simp add: q)
  qed
  have upper: "q < (2::rat) powi (la - lb + 1)"
  proof -
    have "q = of_int a / of_int b" by (rule q)
    also have "\<dots> < 2 powi la / of_int b" using pa(2) bpos by (simp add: divide_strict_right_mono)
    also have "\<dots> \<le> 2 powi la / 2 powi (lb - 1)"
      using pb(1) p2 [of "lb - 1"] p2 [of la] bpos
      by (intro divide_left_mono mult_pos_pos) (simp_all add: less_imp_le)
    also have "\<dots> = 2 powi (la - (lb - 1))"
      by (rule power_int_diff [symmetric]) simp
    also have "la - (lb - 1) = la - lb + 1" by simp
    finally show ?thesis .
  qed
  have i: "ilog2 q = (if 2 powi (la - lb) \<le> q then la - lb else la - lb - 1)"
    by (simp add: ilog2_def ab la_def lb_def Let_def)
  show ?thesis
  proof (cases "2 powi (la - lb) \<le> q")
    case True
    with i upper show ?thesis by simp
  next
    case False
    with i lower show ?thesis by (simp add: not_le)
  qed
qed

lemma round_half_even_error: "\<bar>of_int (round_half_even q) - q\<bar> \<le> 1 / 2"
proof -
  have "of_int \<lfloor>q\<rfloor> \<le> q" "q < of_int \<lfloor>q\<rfloor> + 1" by linarith+
  then show ?thesis by (auto simp: round_half_even_def Let_def)
qed

lemma round_half_even_ge: "of_int n \<le> q \<Longrightarrow> n \<le> round_half_even q"
proof -
  assume "of_int n \<le> q"
  then have "n \<le> \<lfloor>q\<rfloor>" by (simp add: le_floor_iff)
  then show ?thesis by (auto simp: round_half_even_def Let_def)
qed

lemma round53_significand:
  assumes "q \<noteq> 0"
  shows "\<exists>m. round53 q = sgn q * of_int m * 2 powi (ilog2 \<bar>q\<bar> - 52) \<and> 2 ^ 52 \<le> m \<and>
             \<bar>of_int m * 2 powi (ilog2 \<bar>q\<bar> - 52) - \<bar>q\<bar>\<bar> \<le> 2 powi (ilog2 \<bar>q\<bar> - 52) / 2 \<and>
             2 ^ 52 * 2 powi (ilog2 \<bar>q\<bar> - 52) \<le> \<bar>q\<bar>"
proof -
  define e where "e = ilog2 \<bar>q\<bar> - 52"
  define s :: rat where "s = 2 powi e"
  define x where "x = \<bar>q\<bar> / s"
  define m where "m = round_half_even x"
  from assms have pos: "0 < \<bar>q\<bar>" by simp
  have s: "0 < s" by (simp add: s_def)
  from ilog2_bounds [OF pos] have lo: "2 powi (ilog2 \<bar>q\<bar>) \<le> \<bar>q\<bar>" by simp
  have "(2::rat) powi (ilog2 \<bar>q\<bar>) = 2 powi (52 + e)" by (simp add: e_def)
  also have "\<dots> = 2 powi 52 * 2 powi e" by (rule power_int_add) simp
  finally have sc: "(2::rat) powi (ilog2 \<bar>q\<bar>) = 2 ^ 52 * s" by (simp add: s_def)
  with lo have lo': "2 ^ 52 * s \<le> \<bar>q\<bar>" by simp
  then have "2 ^ 52 \<le> x" using s by (simp add: x_def pos_le_divide_eq)
  then have "of_int (2 ^ 52) \<le> x" by simp
  then have m52: "2 ^ 52 \<le> m" unfolding m_def by (rule round_half_even_ge)
  have "\<bar>of_int m - x\<bar> \<le> 1 / 2" unfolding m_def by (rule round_half_even_error)
  then have "\<bar>of_int m - x\<bar> * s \<le> 1 / 2 * s" using s by (intro mult_right_mono) simp_all
  moreover have "\<bar>of_int m - x\<bar> * s = \<bar>of_int m * s - \<bar>q\<bar>\<bar>"
  proof -
    have "\<bar>of_int m - x\<bar> * s = \<bar>(of_int m - x) * s\<bar>" using s by (simp add: abs_mult)
    also have "(of_int m - x) * s = of_int m * s - \<bar>q\<bar>" using s by (simp add: x_def algebra_simps)
    finally show ?thesis .
  qed
  ultimately have err: "\<bar>of_int m * s - \<bar>q\<bar>\<bar> \<le> s / 2" by simp
  have r: "round53 q = sgn q * of_int m * s"
    using assms by (simp add: round53_def Let_def m_def x_def s_def e_def)
  from r m52 err lo' show ?thesis unfolding s_def e_def by blast
qed

lemma round53_error: "\<bar>round53 q - q\<bar> \<le> \<bar>q\<bar> / 2 ^ 53"
proof (cases "q = 0")
  case True
  then show ?thesis by (simp add: round53_def)
next
  case False
  from round53_significand [OF False] obtain m where
    r: "round53 q = sgn q * of_int m * 2 powi (ilog2 \<bar>q\<bar> - 52)" and
    err: "\<bar>of_int m * 2 powi (ilog2 \<bar>q\<bar> - 52) - \<bar>q\<bar>\<bar> \<le> 2 powi (ilog2 \<bar>q\<bar> - 52) / 2" and
    lo: "2 ^ 52 * 2 powi (ilog2 \<bar>q\<bar> - 52) \<le> \<bar>q\<bar>" by blast
  define s :: rat where "s = 2 powi (ilog2 \<bar>q\<bar> - 52)"
  have "sgn q * (of_int m * s - \<bar>q\<bar>) = sgn q * of_int m * s - sgn q * \<bar>q\<bar>"
    by (simp add: algebra_simps)
  also have "sgn q * \<bar>q\<bar> = q" by (rule mult_sgn_abs)
  finally have "round53 q - q = sgn q * (of_int m * s - \<bar>q\<bar>)"
    by (simp add: r s_def)
  then have "\<bar>round53 q - q\<bar> = \<bar>of_int m * s - \<bar>q\<bar>\<bar>"
    using False by (simp add: abs_mult abs_sgn_eq)
  also have "\<dots> \<le> s / 2" using err by (simp add: s_def)
  also have "\<dots> \<le> \<bar>q\<bar> / 2 ^ 53" using lo by (simp add: s_def)
  finally show ?thesis .
qed

lemma round53_sign: "(round53 q < 0 \<longleftrightarrow> q < 0) \<and> (round53 q = 0 \<longleftrightarrow> q = 0)"
proof (cases "q = 0")
  case True
  then show ?thesis by (simp add: round53_def)
next
  case False
  from round53_significand [OF False] obtain m where
    r: "round53 q = sgn q * of_int m * 2 powi (ilog2 \<bar>q\<bar> - 52)" and m: "2 ^ 52 \<le> m" by blast
  have "(0::int) < 2 ^ 52" by simp
  with m have "0 < m" by linarith
  define t :: rat where "t = of_int m * 2 powi (ilog2 \<bar>q\<bar> - 52)"
  from \<open>0 < m\<close> have t: "0 < t" by (simp add: t_def)
  from r have r': "round53 q = sgn q * t" by (simp add: t_def mult.assoc)
  show ?thesis
  proof (cases "q < 0")
    case True
    with r' t show ?thesis by (simp add: sgn_if)
  next
    case False
    with \<open>q \<noteq> 0\<close> have "0 < q" by simp
    with r' t show ?thesis by (simp add: sgn_if)
  qed
qed

lemma not_overflows:
  assumes "\<bar>p\<bar> < 2 ^ 1024"
  shows "\<not> overflows p"
proof
  assume o: "overflows p"
  then have p: "0 < \<bar>p\<bar>" and l: "1024 \<le> ilog2 \<bar>p\<bar>" by (simp_all add: overflows_def)
  have "(2::rat) powi 1024 \<le> 2 powi (ilog2 \<bar>p\<bar>)" using l by (intro power_int_increasing) simp_all
  also have "\<dots> \<le> \<bar>p\<bar>" using ilog2_bounds [OF p] by simp
  finally show False using assms by simp
qed

lemma round53_abs_le: "\<bar>round53 q\<bar> \<le> 2 * \<bar>q\<bar>"
proof -
  have "\<bar>round53 q\<bar> \<le> \<bar>round53 q - q\<bar> + \<bar>q\<bar>" by simp
  also have "\<dots> \<le> \<bar>q\<bar> / 2 ^ 53 + \<bar>q\<bar>" using round53_error [of q] by simp
  also have "\<dots> \<le> 2 * \<bar>q\<bar>" by simp
  finally show ?thesis .
qed

lemma percent_text:
  assumes "ref = 9144000 \<or> ref = 6858000" and "\<bar>v\<bar> < 2 ^ 1000"
  shows "\<exists>n. 0 \<le> n \<and>
           percent v ref = Inr ((if v < 0 then ''-'' else []) @ str_digits (n div 100) @ ''.'' @
                                [digit_char (n div 10 mod 10), digit_char (n mod 10)] @ ''%'') \<and>
           \<bar>of_int n / 100 - \<bar>of_int v / of_int ref * 100 :: rat\<bar>\<bar>
             \<le> 1 / 200 + \<bar>of_int v / of_int ref * 100\<bar> / 2 ^ 51"
proof -
  define q0 :: rat where "q0 = of_int v / of_int ref"
  define x1 where "x1 = round53 q0"
  define x2 where "x2 = round53 (x1 * 100)"
  define n where "n = round_half_even (\<bar>x2\<bar> * 100)"
  define E :: rat where "E = q0 * 100"
  from assms(1) have ref: "(1::rat) \<le> of_int ref" "ref \<noteq> 0" "0 < ref" by auto
  have "\<bar>q0\<bar> = \<bar>of_int v\<bar> / of_int ref" using ref by (simp add: q0_def)
  also have "\<dots> \<le> \<bar>of_int v\<bar> / 1" using ref(1) by (intro divide_left_mono) simp_all
  finally have q0v: "\<bar>q0\<bar> \<le> \<bar>of_int v\<bar>" by simp
  have "\<bar>of_int v :: rat\<bar> = of_int \<bar>v\<bar>" by simp
  also have "\<dots> < of_int (2 ^ 1000)" using assms(2) by (simp only: of_int_less_iff)
  finally have vb: "\<bar>of_int v :: rat\<bar> < 2 ^ 1000" by simp
  with q0v have q0b: "\<bar>q0\<bar> < 2 ^ 1000" by simp
  have x1b: "\<bar>x1\<bar> \<le> 2 * \<bar>q0\<bar>" unfolding x1_def by (rule round53_abs_le)
  with q0b have "\<bar>x1\<bar> < 2 * 2 ^ 1000" by simp
  also have "\<dots> \<le> (2::rat) ^ 1024" by simp
  finally have "\<not> overflows x1" by (rule not_overflows)
  then have td: "true_div v ref = Inr x1"
    using ref(2) by (simp add: true_div_def Let_def x1_def q0_def)
  have "\<bar>x2\<bar> \<le> 2 * \<bar>x1 * 100\<bar>" unfolding x2_def by (rule round53_abs_le)
  also have "\<dots> \<le> 2 * (2 * \<bar>q0\<bar> * 100)" using x1b by (simp add: abs_mult)
  also have "\<dots> < 2 * (2 * 2 ^ 1000 * 100)" using q0b by simp
  also have "\<dots> \<le> (2::rat) ^ 1024" by simp
  finally have "\<not> overflows x2" by (rule not_overflows)
  then have fm: "float_mul x1 100 = Fin x2" by (simp add: float_mul_def Let_def x2_def)
  have sg: "x2 < 0 \<longleftrightarrow> v < 0"
  proof -
    have "x2 < 0 \<longleftrightarrow> x1 * 100 < 0" unfolding x2_def using round53_sign by blast
    also have "\<dots> \<longleftrightarrow> x1 < 0" by (simp add: mult_less_0_iff)
    also have "\<dots> \<longleftrightarrow> q0 < 0" unfolding x1_def using round53_sign by blast
    also have "\<dots> \<longleftrightarrow> v < 0" using ref(3) by (simp add: q0_def divide_less_0_iff)
    finally show ?thesis .
  qed
  have n0: "0 \<le> n" unfolding n_def by (rule round_half_even_ge) simp
  have pc: "percent v ref = Inr ((if v < 0 then ''-'' else []) @ str_digits (n div 100) @ ''.'' @
                                [digit_char (n div 10 mod 10), digit_char (n mod 10)] @ ''%'')"
    by (simp add: percent_def td fm bind_exn_def format_2f_def Let_def n_def sg)
  have e1: "\<bar>x1 - q0\<bar> \<le> \<bar>q0\<bar> / 2 ^ 53" unfolding x1_def by (rule round53_error)
  have e2: "\<bar>x2 - x1 * 100\<bar> \<le> \<bar>x1 * 100\<bar> / 2 ^ 53" unfolding x2_def by (rule round53_error)
  have e3: "\<bar>of_int n - \<bar>x2\<bar> * 100\<bar> \<le> 1 / 2" unfolding n_def by (rule round_half_even_error)
  have aE: "\<bar>E\<bar> = \<bar>q0\<bar> * 100" by (simp add: E_def abs_mult)
  have a1: "\<bar>x1 * 100 - E\<bar> \<le> \<bar>E\<bar> / 2 ^ 53"
  proof -
    have d: "x1 * 100 - E = (x1 - q0) * 100" by (simp add: E_def algebra_simps)
    have "\<bar>x1 * 100 - E\<bar> = \<bar>x1 - q0\<bar> * 100" by (subst d, subst abs_mult) simp
    also have "\<dots> \<le> \<bar>q0\<bar> / 2 ^ 53 * 100" using e1 by (intro mult_right_mono) simp_all
    finally show ?thesis by (simp add: aE)
  qed
  have a2: "\<bar>x1 * 100\<bar> \<le> 2 * \<bar>E\<bar>" using x1b by (simp add: aE abs_mult)
  have a2': "\<bar>x1 * 100\<bar> / 2 ^ 53 \<le> 2 * \<bar>E\<bar> / 2 ^ 53"
    using a2 by (intro divide_right_mono) simp_all
  have "\<bar>x2 - E\<bar> \<le> \<bar>x2 - x1 * 100\<bar> + \<bar>x1 * 100 - E\<bar>" by simp
  also have "\<dots> \<le> 2 * \<bar>E\<bar> / 2 ^ 53 + \<bar>E\<bar> / 2 ^ 53"
    using e2 a1 a2' by linarith
  also have "\<dots> \<le> \<bar>E\<bar> / 2 ^ 51" by simp
  finally have a3: "\<bar>x2 - E\<bar> \<le> \<bar>E\<bar> / 2 ^ 51" .
  have a4: "\<bar>\<bar>x2\<bar> - \<bar>E\<bar>\<bar> \<le> \<bar>E\<bar> / 2 ^ 51"
    using a3 abs_triangle_ineq3 [of x2 E] by linarith
  have a5: "\<bar>of_int n / 100 - \<bar>x2\<bar>\<bar> \<le> 1 / 200"
  proof -
    have d: "of_int n / 100 - \<bar>x2\<bar> = (of_int n - \<bar>x2\<bar> * 100) / 100" by (simp add: field_simps)
    have "\<bar>of_int n / 100 - \<bar>x2\<bar>\<bar> = \<bar>of_int n - \<bar>x2\<bar> * 100\<bar> / 100"
      by (subst d, subst abs_divide) simp
    also have "\<dots> \<le> (1 / 2) / 100" using e3 by (intro divide_right_mono) simp_all
    finally show ?thesis by simp
  qed
  have "\<bar>of_int n / 100 - \<bar>E\<bar>\<bar> \<le> \<bar>of_int n / 100 - \<bar>x2\<bar>\<bar> + \<bar>\<bar>x2\<bar> - \<bar>E\<bar>\<bar>" by simp
  also have "\<dots> \<le> 1 / 200 + \<bar>E\<bar> / 2 ^ 51" using a4 a5 by simp
  finally have "\<bar>of_int n / 100 - \<bar>of_int v / of_int ref * 100 :: rat\<bar>\<bar>
             \<le> 1 / 200 + \<bar>of_int v / of_int ref * 100\<bar> / 2 ^ 51"
    by (simp add: E_def q0_def)
  with n0 pc show ?thesis by blast
qed

lemma percent_is_percent_of:
  assumes "ref = 9144000 \<or> ref = 6858000" and "\<bar>v\<bar> < 2 ^ 1000"
  shows "\<exists>s. percent v ref = Inr s \<and> percent_of v ref s"
proof -
  from percent_text [OF assms] obtain n where n: "0 \<le> n" and
    p: "percent v ref = Inr ((if v < 0 then ''-'' else []) @ str_digits (n div 100) @ ''.'' @
                                [digit_char (n div 10 mod 10), digit_char (n mod 10)] @ ''%'')" and
    e: "\<bar>of_int n / 100 - \<bar>of_int v / of_int ref * 100 :: rat\<bar>\<bar>
             \<le> 1 / 200 + \<bar>of_int v / of_int ref * 100\<bar> / 2 ^ 51" by blast
  from n have "0 \<le> n div 100" by simp
  then have d0: "set (str_digits (n div 100)) \<subseteq> set ''0123456789''" by (rule str_digits_decimal)
  have d1: "digit_char (n div 10 mod 10) \<in> set ''0123456789''"
    by (rule digit_char_decimal) simp_all
  have d2: "digit_char (n mod 10) \<in> set ''0123456789''"
    by (rule digit_char_decimal) simp_all
  from d0 d1 d2 have d: "set (str_digits (n div 100) @ [digit_char (n div 10 mod 10), digit_char (n mod 10)])
       \<subseteq> set ''0123456789''" by simp
  from n p e d str_digits_nonempty [of "n div 100"] show ?thesis
    unfolding percent_of_def by blast
qed

lemma percent_examples:
  "percent 0 9144000 = Inr ''0.00%''"
  "percent 9144000 9144000 = Inr ''100.00%''"
  "percent (- 4572000) 9144000 = Inr ''-50.00%''"
  "percent 13716000 9144000 = Inr ''150.00%''"
  "percent 6858000 6858000 = Inr ''100.00%''"
  "percent 2286 9144000 = Inr ''0.03%''"
  "percent 11430 9144000 = Inr ''0.12%''"
  by code_simp+

section \<open>Properties of the renderer\<close>

lemma common_style_full_slide:
  "common_style full_slide_shape = Inr ''left:0.00%;top:0.00%;width:100.00%;height:100.00%;''"
  by code_simp

lemma common_style_picture:
  "common_style picture_shape = Inr ''left:0.00%;top:0.00%;width:100.00%;height:100.00%;''"
  by code_simp

lemma common_style_update [simp]:
  "common_style (sd\<lparr>has_text_frame := b\<rparr>) = common_style sd"
  "common_style (sd\<lparr>text_frame := tf\<rparr>) = common_style sd"
  "common_style (sd\<lparr>fill_color := fc\<rparr>) = common_style sd"
  by (simp_all add: common_style_def)

lemma picture_case:
  assumes "shape_type sd = MSO_SHAPE_TYPE_PICTURE" and "common_style sd = Inr style"
  shows "process_shape_data env j sd dir i ig =
     (if ig then ([], Inr (img_fragment (image_filename i j) style))
      else case image_b64 sd of
         None \<Rightarrow> ([], Inl (Exn TypeError (''argument should be a bytes-like object or ASCII string, not '' @
                     apos @ ''NoneType'' @ apos)))
       | Some b64 \<Rightarrow>
          (case b64decode env b64 of
             Inl e \<Rightarrow> ([], Inl e)
           | Inr image_bytes \<Rightarrow>
              (case image_save env image_bytes (os_path_join dir (image_filename i j)) of
                 None \<Rightarrow> ([SavePng (os_path_join dir (image_filename i j)) image_bytes],
                          Inr (img_fragment (image_filename i j) style))
               | Some e \<Rightarrow>
                  if exn_class_of e = OSError
                  then ([LogWarning (failure_warning i j e)], Inr (failure_fragment i j))
                  else ([], Inl e))))"
  using assms
  by (simp add: process_shape_data_def ret_def raise_def Let_def split: option.split sum.split)

lemma picture_shape_type: "shape_type picture_shape = MSO_SHAPE_TYPE_PICTURE"
  by (simp add: picture_shape_def full_slide_shape_def MSO_SHAPE_TYPE_PICTURE_def)

lemma image_filename_2_0: "image_filename 2 0 = ''slide_3_image_1.png''"
  by code_simp

lemma bind_io_simps [simp]:
  "bind_io (evs, Inl e) f = (evs, Inl e)"
  "bind_io (evs, Inr x) f = (evs @ fst (f x), snd (f x))"
  "bind_io (ret x) f = f x"
  by (simp_all add: bind_io_def ret_def split: prod.split)

lemma process_shapes_append:
  "process_shapes env k xs dir i ig = (evs0, Inr fs0) \<Longrightarrow>
   process_shapes env k (xs @ ys) dir i ig =
     (evs0 @ fst (process_shapes env (k + length xs) ys dir i ig),
      map_sum id ((@) fs0) (snd (process_shapes env (k + length xs) ys dir i ig)))"
proof (induction xs arbitrary: k evs0 fs0)
  case Nil
  then show ?case by (cases "process_shapes env k ys dir i ig"; simp add: ret_def sum.map_ident map_sum.identity)
next
  case (Cons x xs)
  obtain e1 r1 where h: "process_shape_data env k x dir i ig = (e1, r1)" by fastforce
  show ?case
  proof (cases r1)
    case (Inl a)
    with Cons.prems h show ?thesis by simp
  next
    case (Inr f1)
    obtain e2 r2 where t: "process_shapes env (Suc k) xs dir i ig = (e2, r2)" by fastforce
    show ?thesis
    proof (cases r2)
      case (Inl a)
      with Cons.prems h t Inr show ?thesis by simp
    next
      case (Inr fs2)
      from Cons.IH [OF t [unfolded Inr]] Cons.prems h t Inr \<open>r1 = Inr f1\<close>
      show ?thesis
        by (cases "snd (process_shapes env (Suc (k + length xs)) ys dir i ig)") (auto simp: ret_def)
    qed
  qed
qed

lemma text_shape_fragment:
  "process_shape_data env j full_slide_shape dir i ig = ([], Inr hello_fragment)"
  by (simp add: process_shape_data_def common_style_full_slide)
     (simp add: full_slide_shape_def MSO_SHAPE_TYPE_PICTURE_def ret_def text_fragment_def bg_color_def
        render_paragraph_def render_run_def run_style_def title_run_def truthy_str_def str_opt_def
        str_int_opt_def hello_fragment_def)

lemma extract_text_shape: "extract_shape env text_shape_src = ([], full_slide_shape)"
  by (simp add: extract_shape_def text_shape_src_def extract_text_frame_def extract_paragraph_def
      bind_exn_def extract_run_def rgb_to_hex_def get_fill_color_def full_slide_shape_def title_run_def
      MSO_SHAPE_TYPE_PICTURE_def)

lemma fill_color_extract_shape:
  "fill_color (snd (extract_shape env shape)) =
     (case get_fill_color shape of None \<Rightarrow> Null | Some c \<Rightarrow> Str c)"
  by (simp add: extract_shape_def Let_def split: prod.split)

lemma failure_fragment_0_1:
  "failure_fragment 0 (Suc 0) = ''<p>[Image processing failed for slide 1, shape 2]</p>''"
  by code_simp

subsection \<open>Position box\<close>

text \<open>
  Claim C1.  For a shape whose four bounds are below \<open>2 ^ 1000\<close> in magnitude (every
  64-bit value is), each of the four percentages is computed without an exception, the position
  box is \<open>left:\<close>, \<open>top:\<close>, \<open>width:\<close> and \<open>height:\<close> followed by them, with
  9144000 as reference for left and width and 6858000 for top and height, and each text
  satisfies \<open>percent_of\<close>: digits, a point, exactly two digits and a percent sign, with
  a minus sign for a negative value, denoting the exact percentage rounded to two
  decimals.  Nothing is clamped: 0 gives \<open>0.00%\<close>, the full width \<open>100.00%\<close>, a
  negative offset \<open>-50.00%\<close> and one and a half widths \<open>150.00%\<close>.
\<close>

theorem C1_position_box_percentages:
  assumes "\<bar>left sd\<bar> < 2 ^ 1000" and "\<bar>top_emu sd\<bar> < 2 ^ 1000"
    and "\<bar>width sd\<bar> < 2 ^ 1000" and "\<bar>height sd\<bar> < 2 ^ 1000"
  shows "(\<exists>pl pt pw ph.
            percent (left sd) 9144000 = Inr pl \<and> percent_of (left sd) 9144000 pl \<and>
            percent (top_emu sd) 6858000 = Inr pt \<and> percent_of (top_emu sd) 6858000 pt \<and>
            percent (width sd) 9144000 = Inr pw \<and> percent_of (width sd) 9144000 pw \<and>
            percent (height sd) 6858000 = Inr ph \<and> percent_of (height sd) 6858000 ph \<and>
            common_style sd = Inr (''left:'' @ pl @ '';top:'' @ pt @ '';width:'' @ pw @
                                   '';height:'' @ ph @ '';'')) \<and>
         percent 0 9144000 = Inr ''0.00%'' \<and>
         percent 9144000 9144000 = Inr ''100.00%'' \<and>
         percent (- 4572000) 9144000 = Inr ''-50.00%'' \<and>
         percent 13716000 9144000 = Inr ''150.00%''"
proof -
  from percent_is_percent_of [OF disjI1 [OF refl] assms(1)] obtain pl where
    l: "percent (left sd) 9144000 = Inr pl" "percent_of (left sd) 9144000 pl" by blast
  from percent_is_percent_of [OF disjI2 [OF refl] assms(2)] obtain pt where
    t: "percent (top_emu sd) 6858000 = Inr pt" "percent_of (top_emu sd) 6858000 pt" by blast
  from percent_is_percent_of [OF disjI1 [OF refl] assms(3)] obtain pw where
    w: "percent (width sd) 9144000 = Inr pw" "percent_of (width sd) 9144000 pw" by blast
  from percent_is_percent_of [OF disjI2 [OF refl] assms(4)] obtain ph where
    h: "percent (height sd) 6858000 = Inr ph" "percent_of (height sd) 6858000 ph" by blast
  have "common_style sd = Inr (''left:'' @ pl @ '';top:'' @ pt @ '';width:'' @ pw @
                                   '';height:'' @ ph @ '';'')"
    by (simp add: common_style_def bind_exn_def l t w h)
  with l t w h percent_examples(1-4) show ?thesis by blast
qed

theorem C1_position_box_percentages_witness:
  "\<bar>left full_slide_shape\<bar> < 2 ^ 1000 \<and> \<bar>top_emu full_slide_shape\<bar> < 2 ^ 1000 \<and>
   \<bar>width full_slide_shape\<bar> < 2 ^ 1000 \<and> \<bar>height full_slide_shape\<bar> < 2 ^ 1000 \<and>
   percent_of 0 9144000 ''0.00%'' \<and> percent_of 0 6858000 ''0.00%'' \<and>
   percent_of 9144000 9144000 ''100.00%'' \<and> percent_of 6858000 6858000 ''100.00%'' \<and>
   common_style full_slide_shape = Inr ''left:0.00%;top:0.00%;width:100.00%;height:100.00%;''"
proof -
  have b: "\<bar>left full_slide_shape\<bar> < 2 ^ 1000" "\<bar>top_emu full_slide_shape\<bar> < 2 ^ 1000"
    "\<bar>width full_slide_shape\<bar> < 2 ^ 1000" "\<bar>height full_slide_shape\<bar> < 2 ^ 1000"
    by (simp_all add: full_slide_shape_def)
  have v: "left full_slide_shape = 0" "top_emu full_slide_shape = 0"
    "width full_slide_shape = 9144000" "height full_slide_shape = 6858000"
    by (simp_all add: full_slide_shape_def)
  have p: "percent 0 6858000 = Inr ''0.00%''" by code_simp
  from C1_position_box_percentages [OF b] obtain pl pt pw ph where
    "percent (left full_slide_shape) 9144000 = Inr pl" "percent_of (left full_slide_shape) 9144000 pl"
    "percent (top_emu full_slide_shape) 6858000 = Inr pt" "percent_of (top_emu full_slide_shape) 6858000 pt"
    "percent (width full_slide_shape) 9144000 = Inr pw" "percent_of (width full_slide_shape) 9144000 pw"
    "percent (height full_slide_shape) 6858000 = Inr ph" "percent_of (height full_slide_shape) 6858000 ph"
    by blast
  then have "percent_of 0 9144000 ''0.00%'' \<and> percent_of 0 6858000 ''0.00%'' \<and>
   percent_of 9144000 9144000 ''100.00%'' \<and> percent_of 6858000 6858000 ''100.00%''"
    unfolding v by (simp add: percent_examples p)
  with b common_style_full_slide show ?thesis by blast
qed

subsection \<open>Run styles\<close>


subsection \<open>Pictures\<close>

text \<open>
  Claim C10.  The picture test comes first in \<open>process_shape_data\<close>.  A shape of type
  Picture yields the \<open>img\<close> element when image export is skipped; with export it returns
  the \<open>img\<close> element, the failure placeholder, or raises; and in every case the result is
  the same whatever the shape's text-frame flag, paragraphs and fill colour are, so none
  of them is rendered.
\<close>

theorem C10_picture_branch_first:
  assumes "shape_type sd = MSO_SHAPE_TYPE_PICTURE" and "common_style sd = Inr style"
  shows "process_shape_data env j sd dir i True = ([], Inr (img_fragment (image_filename i j) style)) \<and>
         snd (process_shape_data env j sd dir i ig)
           \<in> {Inr (img_fragment (image_filename i j) style), Inr (failure_fragment i j)} \<union> range Inl \<and>
         process_shape_data env j (sd\<lparr>has_text_frame := b, text_frame := tf, fill_color := fc\<rparr>) dir i ig
           = process_shape_data env j sd dir i ig"
proof -
  have a: "process_shape_data env j sd dir i True = ([], Inr (img_fragment (image_filename i j) style))"
    by (simp add: picture_case [OF assms])
  have b: "snd (process_shape_data env j sd dir i ig)
           \<in> {Inr (img_fragment (image_filename i j) style), Inr (failure_fragment i j)} \<union> range Inl"
    by (simp add: picture_case [OF assms] split: option.split sum.split)
  let ?sd = "sd\<lparr>has_text_frame := b, text_frame := tf, fill_color := fc\<rparr>"
  have "shape_type ?sd = MSO_SHAPE_TYPE_PICTURE" "common_style ?sd = Inr style"
    using assms by simp_all
  from picture_case [OF this] have c: "process_shape_data env j ?sd dir i ig
           = process_shape_data env j sd dir i ig"
    by (simp add: picture_case [OF assms])
  from a b c show ?thesis by blast
qed

theorem C10_picture_branch_first_witness:
  "shape_type picture_shape = MSO_SHAPE_TYPE_PICTURE \<and> has_text_frame picture_shape \<and>
   text_frame picture_shape \<noteq> Some [] \<and>
   process_shape_data env_ok 0 picture_shape ''out/images'' 2 True =
     ([], Inr (img_fragment ''slide_3_image_1.png'' ''left:0.00%;top:0.00%;width:100.00%;height:100.00%;''))"
proof -
  have h: "has_text_frame picture_shape \<and> text_frame picture_shape \<noteq> Some []"
    by (simp add: picture_shape_def full_slide_shape_def)
  from C10_picture_branch_first [OF picture_shape_type common_style_picture, of env_ok 0 "''out/images''" 2]
    picture_shape_type image_filename_2_0 h
  show ?thesis by simp
qed

text \<open>
  Claim C6.  For a picture at slide index \<open>i\<close> and shape index \<open>j\<close> (both from zero) the
  file name is \<open>slide_{i+1}_image_{j+1}.png\<close>, and the \<open>img\<close> element refers to
  \<open>images/\<close> followed by that name.  With image export skipped no event happens, so
  nothing is written, and the element returned is the one a successful export returns
  after writing the decoded bytes to the image directory under that name.  Slide index 2
  and shape index 0 give \<open>slide_3_image_1.png\<close>.
\<close>

theorem C6_picture_filename_and_reference:
  assumes "shape_type sd = MSO_SHAPE_TYPE_PICTURE" and "common_style sd = Inr style"
  shows "image_filename i j =
           ''slide_'' @ str_int (int i + 1) @ ''_image_'' @ str_int (int j + 1) @ ''.png'' \<and>
         image_filename 2 0 = ''slide_3_image_1.png'' \<and>
         process_shape_data env j sd dir i True =
           ([], Inr (img_fragment (image_filename i j) style)) \<and>
         (\<forall>b64 bytes. image_b64 sd = Some b64 \<and> b64decode env b64 = Inr bytes \<and>
              image_save env bytes (os_path_join dir (image_filename i j)) = None \<longrightarrow>
            process_shape_data env j sd dir i False =
              ([SavePng (os_path_join dir (image_filename i j)) bytes],
               Inr (img_fragment (image_filename i j) style))) \<and>
         prefix (''<img src='' @ apos @ ''images/'' @ image_filename i j @ apos)
                (img_fragment (image_filename i j) style)"
proof -
  have a: "process_shape_data env j sd dir i True =
           ([], Inr (img_fragment (image_filename i j) style))"
    by (simp add: picture_case [OF assms])
  have b: "\<forall>b64 bytes. image_b64 sd = Some b64 \<and> b64decode env b64 = Inr bytes \<and>
              image_save env bytes (os_path_join dir (image_filename i j)) = None \<longrightarrow>
            process_shape_data env j sd dir i False =
              ([SavePng (os_path_join dir (image_filename i j)) bytes],
               Inr (img_fragment (image_filename i j) style))"
    by (simp add: picture_case [OF assms])
  have c: "prefix (''<img src='' @ apos @ ''images/'' @ image_filename i j @ apos)
                (img_fragment (image_filename i j) style)"
    by (simp add: img_fragment_def)
  from a b c image_filename_2_0 show ?thesis
    by (simp add: image_filename_def)
qed

theorem C6_picture_filename_and_reference_witness:
  "shape_type picture_shape = MSO_SHAPE_TYPE_PICTURE \<and>
   image_b64 picture_shape = Some ''iVBORw0KGgo='' \<and>
   b64decode env_ok ''iVBORw0KGgo='' = Inr ''iVBORw0KGgo='' \<and>
   image_save env_ok ''iVBORw0KGgo='' ''out/images/slide_3_image_1.png'' = None \<and>
   process_shape_data env_ok 0 picture_shape ''out/images'' 2 False =
     ([SavePng ''out/images/slide_3_image_1.png'' ''iVBORw0KGgo=''],
      Inr (img_fragment ''slide_3_image_1.png'' ''left:0.00%;top:0.00%;width:100.00%;height:100.00%;'')) \<and>
   process_shape_data env_ok 0 picture_shape ''out/images'' 2 True =
     ([], Inr (img_fragment ''slide_3_image_1.png'' ''left:0.00%;top:0.00%;width:100.00%;height:100.00%;''))"
proof -
  have h: "image_b64 picture_shape = Some ''iVBORw0KGgo=''"
    by (simp add: picture_shape_def full_slide_shape_def)
  have e: "b64decode env_ok ''iVBORw0KGgo='' = Inr ''iVBORw0KGgo=''"
          "image_save env_ok ''iVBORw0KGgo='' ''out/images/slide_3_image_1.png'' = None"
    by (simp_all add: env_ok_def)
  have p: "os_path_join ''out/images'' ''slide_3_image_1.png'' = ''out/images/slide_3_image_1.png''"
    by (simp add: os_path_join_def)
  from C6_picture_filename_and_reference [OF picture_shape_type common_style_picture,
      of 2 0 env_ok "''out/images''"] picture_shape_type h e p image_filename_2_0
  show ?thesis by simp
qed

subsection \<open>Fill colour\<close>

text \<open>
  Claim C2.  The extractor always stores the key \<open>fill_color\<close>, bound to \<open>None\<close> when
  \<open>get_fill_color\<close> finds no solid RGB and no background fill, so the default of
  \<open>dict.get\<close> in the renderer is never used.  A solid RGB fill renders its hex string and
  a background fill renders \<open>transparent\<close>, but a gradient, a pattern, an undefined fill
  type or a missing fill renders the text \<open>background-color: None;\<close>, as the text shape
  with a gradient fill shows.
\<close>

theorem C2_unrecognized_fill_renders_None:
  \<open>bg_color (fill_color (snd (extract_shape env
      (shape\<lparr>src_fill := Some \<lparr>fill_type = Some SOLID, fore_color_rgb = Some (r, g, b)\<rparr>\<rparr>)))) =
     ''background-color: #'' @ format_02x r @ format_02x g @ format_02x b @ '';'' \<and>
   bg_color (fill_color (snd (extract_shape env
      (shape\<lparr>src_fill := Some \<lparr>fill_type = Some SOLID, fore_color_rgb = Some (255, 0, 10)\<rparr>\<rparr>)))) =
     ''background-color: #ff000a;'' \<and>
   bg_color (fill_color (snd (extract_shape env
      (shape\<lparr>src_fill := Some \<lparr>fill_type = Some BACKGROUND, fore_color_rgb = c\<rparr>\<rparr>)))) =
     ''background-color: transparent;'' \<and>
   bg_color (fill_color (snd (extract_shape env
      (shape\<lparr>src_fill := Some \<lparr>fill_type = Some GRADIENT, fore_color_rgb = c\<rparr>\<rparr>)))) =
     ''background-color: None;'' \<and>
   bg_color (fill_color (snd (extract_shape env
      (shape\<lparr>src_fill := Some \<lparr>fill_type = Some PATTERNED, fore_color_rgb = c\<rparr>\<rparr>)))) =
     ''background-color: None;'' \<and>
   bg_color (fill_color (snd (extract_shape env
      (shape\<lparr>src_fill := Some \<lparr>fill_type = None, fore_color_rgb = c\<rparr>\<rparr>)))) =
     ''background-color: None;'' \<and>
   bg_color (fill_color (snd (extract_shape env (shape\<lparr>src_fill := None\<rparr>)))) =
     ''background-color: None;'' \<and>
   process_shape_data env 0 (snd (extract_shape env text_shape_src)) ''out/images'' 0 False =
     ([], Inr (''<div class=\'absolute flex flex-col items-start justify-start\' style='' @ apos @
        ''left:0.00%;top:0.00%;width:100.00%;height:100.00%;background-color: None;\'>'' @
        ''<h1 class=\'title\' style=\'text-align: None;\'>'' @
        ''<span style=\'font-family: None; font-weight: bold; \'>Hello</span></h1></div>''))\<close>
proof -
  have h: "format_02x 255 = ''ff''" "format_02x 0 = ''00''" "format_02x 10 = ''0a''"
    by code_simp+
  show ?thesis
    by (simp add: extract_text_shape text_shape_fragment hello_fragment_def fill_color_extract_shape get_fill_color_def rgb_to_hex_def bg_color_def h)
qed

subsection \<open>Declarations of a run style\<close>

lemma occurs_at_colon_iff:
  "occurs_at_colon u v pre s \<longleftrightarrow>
     (\<exists>p a. s = p @ CHR '':'' # a \<and> suffix u (pre @ p) \<and> prefix v a)"
proof (induction s arbitrary: pre)
  case Nil
  then show ?case by simp
next
  case (Cons c cs)
  show ?case
  proof
    assume "occurs_at_colon u v pre (c # cs)"
    then consider "c = CHR '':''" "suffix u pre" "prefix v cs" | "occurs_at_colon u v (pre @ [c]) cs"
      by auto
    then show "\<exists>p a. c # cs = p @ CHR '':'' # a \<and> suffix u (pre @ p) \<and> prefix v a"
    proof cases
      case 1
      then have "c # cs = [] @ CHR '':'' # cs \<and> suffix u (pre @ []) \<and> prefix v cs" by simp
      then show ?thesis by blast
    next
      case 2
      with Cons.IH obtain p a where "cs = p @ CHR '':'' # a" "suffix u ((pre @ [c]) @ p)" "prefix v a"
        by blast
      then have "c # cs = (c # p) @ CHR '':'' # a \<and> suffix u (pre @ (c # p)) \<and> prefix v a" by simp
      then show ?thesis by blast
    qed
  next
    assume "\<exists>p a. c # cs = p @ CHR '':'' # a \<and> suffix u (pre @ p) \<and> prefix v a"
    then obtain p a where h: "c # cs = p @ CHR '':'' # a" "suffix u (pre @ p)" "prefix v a" by blast
    show "occurs_at_colon u v pre (c # cs)"
    proof (cases p)
      case Nil
      with h show ?thesis by simp
    next
      case (Cons d p')
      with h have "cs = p' @ CHR '':'' # a" "suffix u ((pre @ [c]) @ p')" by simp_all
      with h(3) Cons.IH [of "pre @ [c]"] show ?thesis by auto
    qed
  qed
qed

lemma sublist_colon_iff:
  "sublist (u @ CHR '':'' # v) s \<longleftrightarrow> occurs_at_colon u v [] s"
proof
  assume "sublist (u @ CHR '':'' # v) s"
  then obtain ps ss where "s = ps @ (u @ CHR '':'' # v) @ ss" by (auto simp: sublist_def)
  then have "s = (ps @ u) @ CHR '':'' # (v @ ss) \<and> suffix u ([] @ (ps @ u)) \<and> prefix v (v @ ss)"
    by (simp add: suffix_def)
  then show "occurs_at_colon u v [] s" unfolding occurs_at_colon_iff by blast
next
  assume "occurs_at_colon u v [] s"
  then obtain p a where h: "s = p @ CHR '':'' # a" "suffix u p" "prefix v a"
    unfolding occurs_at_colon_iff by auto
  then obtain ps ss where "p = ps @ u" "a = v @ ss" by (auto simp: suffix_def prefix_def)
  with h(1) have "s = ps @ (u @ CHR '':'' # v) @ ss" by simp
  then show "sublist (u @ CHR '':'' # v) s" unfolding sublist_def by blast
qed

lemma occurs_at_colon_skip:
  "CHR '':'' \<notin> set xs \<Longrightarrow> occurs_at_colon u v pre (xs @ ys) = occurs_at_colon u v (pre @ xs) ys"
  by (induction xs arbitrary: pre) auto


lemma occurs_piece:
  assumes "CHR '':'' \<notin> set k" and "CHR '':'' \<notin> set b"
  shows "occurs_at_colon u v pre (k @ CHR '':'' # b @ rest) \<longleftrightarrow>
           (suffix u (pre @ k) \<and> prefix v (b @ rest)) \<or>
           occurs_at_colon u v (pre @ k @ CHR '':'' # b) rest"
  using assms by (simp add: occurs_at_colon_skip)

lemma occurs_optional_piece:
  assumes "CHR '':'' \<notin> set k" and "CHR '':'' \<notin> set b"
  shows "occurs_at_colon u v pre ((if c then k @ CHR '':'' # b else []) @ rest) \<longleftrightarrow>
           (c \<and> suffix u (pre @ k) \<and> prefix v (b @ rest)) \<or>
           occurs_at_colon u v (pre @ (if c then k @ CHR '':'' # b else [])) rest"
  using occurs_piece [OF assms, of u v pre rest] by simp

lemma occurs_five_pieces:
  fixes k1 b1 k2 b2 k3 b3 k4 b4 k5 b5 :: string
  defines "o2 \<equiv> \<lambda>c. if c then k2 @ CHR '':'' # b2 else []"
    and "o3 \<equiv> \<lambda>c. if c then k3 @ CHR '':'' # b3 else []"
    and "o4 \<equiv> \<lambda>c. if c then k4 @ CHR '':'' # b4 else []"
    and "o5 \<equiv> \<lambda>c. if c then k5 @ CHR '':'' # b5 else []"
  assumes "CHR '':'' \<notin> set (k1 @ b1 @ k2 @ b2 @ k3 @ b3 @ k4 @ b4 @ k5 @ b5)"
  shows "occurs_at_colon u v [] (k1 @ CHR '':'' # b1 @ o2 c2 @ o3 c3 @ o4 c4 @ o5 c5) \<longleftrightarrow>
     (suffix u k1 \<and> prefix v (b1 @ o2 c2 @ o3 c3 @ o4 c4 @ o5 c5)) \<or>
     (c2 \<and> suffix u ((k1 @ CHR '':'' # b1) @ k2) \<and> prefix v (b2 @ o3 c3 @ o4 c4 @ o5 c5)) \<or>
     (c3 \<and> suffix u ((k1 @ CHR '':'' # b1 @ o2 c2) @ k3) \<and> prefix v (b3 @ o4 c4 @ o5 c5)) \<or>
     (c4 \<and> suffix u ((k1 @ CHR '':'' # b1 @ o2 c2 @ o3 c3) @ k4) \<and> prefix v (b4 @ o5 c5)) \<or>
     (c5 \<and> suffix u ((k1 @ CHR '':'' # b1 @ o2 c2 @ o3 c3 @ o4 c4) @ k5) \<and> prefix v b5)"
proof -
  from assms(5) have n: "CHR '':'' \<notin> set k1" "CHR '':'' \<notin> set b1" "CHR '':'' \<notin> set k2"
    "CHR '':'' \<notin> set b2" "CHR '':'' \<notin> set k3" "CHR '':'' \<notin> set b3" "CHR '':'' \<notin> set k4"
    "CHR '':'' \<notin> set b4" "CHR '':'' \<notin> set k5" "CHR '':'' \<notin> set b5" by auto
  let ?r5 = "o5 c5" let ?r4 = "o4 c4 @ ?r5" let ?r3 = "o3 c3 @ ?r4" let ?r2 = "o2 c2 @ ?r3"
  let ?p2 = "k1 @ CHR '':'' # b1" let ?p3 = "?p2 @ o2 c2" let ?p4 = "?p3 @ o3 c3"
  let ?p5 = "?p4 @ o4 c4"
  have 1: "occurs_at_colon u v [] (k1 @ CHR '':'' # b1 @ ?r2) \<longleftrightarrow>
      (suffix u k1 \<and> prefix v (b1 @ ?r2)) \<or> occurs_at_colon u v ?p2 ?r2"
    using occurs_piece [OF n(1,2), of u v "[]" ?r2] by simp
  have 2: "occurs_at_colon u v ?p2 ?r2 \<longleftrightarrow>
      (c2 \<and> suffix u (?p2 @ k2) \<and> prefix v (b2 @ ?r3)) \<or> occurs_at_colon u v ?p3 ?r3"
    unfolding o2_def by (rule occurs_optional_piece [OF n(3,4)])
  have 3: "occurs_at_colon u v ?p3 ?r3 \<longleftrightarrow>
      (c3 \<and> suffix u (?p3 @ k3) \<and> prefix v (b3 @ ?r4)) \<or> occurs_at_colon u v ?p4 ?r4"
    unfolding o3_def by (rule occurs_optional_piece [OF n(5,6)])
  have 4: "occurs_at_colon u v ?p4 ?r4 \<longleftrightarrow>
      (c4 \<and> suffix u (?p4 @ k4) \<and> prefix v (b4 @ ?r5)) \<or> occurs_at_colon u v ?p5 ?r5"
    unfolding o4_def by (rule occurs_optional_piece [OF n(7,8)])
  have 5: "occurs_at_colon u v ?p5 ?r5 \<longleftrightarrow>
      (c5 \<and> suffix u (?p5 @ k5) \<and> prefix v b5)"
    unfolding o5_def using occurs_optional_piece [OF n(9,10), of u v ?p5 c5 "[]"] by simp
  show ?thesis unfolding 1 2 3 4 5 by (simp only: append_assoc append_Cons)
qed

lemma decl_occurs:
  "sublist ''font-weight: bold;'' s = occurs_at_colon ''font-weight'' '' bold;'' [] s"
  "sublist ''font-style: italic;'' s = occurs_at_colon ''font-style'' '' italic;'' [] s"
  "sublist ''color: '' s = occurs_at_colon ''color'' '' '' [] s"
  "sublist ''font-weight: normal'' s = occurs_at_colon ''font-weight'' '' normal'' [] s"
  "sublist ''font-style: normal'' s = occurs_at_colon ''font-style'' '' normal'' [] s"
  using sublist_colon_iff [of "''font-weight''" "'' bold;''" s]
    sublist_colon_iff [of "''font-style''" "'' italic;''" s]
    sublist_colon_iff [of "''color''" "'' ''" s]
    sublist_colon_iff [of "''font-weight''" "'' normal''" s]
    sublist_colon_iff [of "''font-style''" "'' normal''" s]
  by simp_all

lemma run_style_pieces:
  assumes "\<forall>x. CHR '':'' \<notin> set (float_str env x)"
  obtains c2 F where "CHR '':'' \<notin> set F" and
    "run_style env run =
       ''font-family'' @ CHR '':'' # ('' '' @ str_opt (font_name run) @ ''; '') @
       (if c2 then ''font-size'' @ CHR '':'' # ('' '' @ F @ ''pt; '') else []) @
       (if bold run = Some True then ''font-weight'' @ CHR '':'' # '' bold; '' else []) @
       (if italic run = Some True then ''font-style'' @ CHR '':'' # '' italic; '' else []) @
       (if truthy_str (color run) then ''color'' @ CHR '':'' # ('' '' @ str_opt (color run) @ ''; '') else [])"
proof (cases "font_size run")
  case None
  then have "run_style env run =
       ''font-family'' @ CHR '':'' # ('' '' @ str_opt (font_name run) @ ''; '') @
       (if False then ''font-size'' @ CHR '':'' # ('' '' @ [] @ ''pt; '') else []) @
       (if bold run = Some True then ''font-weight'' @ CHR '':'' # '' bold; '' else []) @
       (if italic run = Some True then ''font-style'' @ CHR '':'' # '' italic; '' else []) @
       (if truthy_str (color run) then ''color'' @ CHR '':'' # ('' '' @ str_opt (color run) @ ''; '') else [])"
    by (simp add: run_style_def)
  then show ?thesis using that [of "[]" False] by simp
next
  case (Some x)
  then have "run_style env run =
       ''font-family'' @ CHR '':'' # ('' '' @ str_opt (font_name run) @ ''; '') @
       (if x \<noteq> 0 then ''font-size'' @ CHR '':'' # ('' '' @ float_str env x @ ''pt; '') else []) @
       (if bold run = Some True then ''font-weight'' @ CHR '':'' # '' bold; '' else []) @
       (if italic run = Some True then ''font-style'' @ CHR '':'' # '' italic; '' else []) @
       (if truthy_str (color run) then ''color'' @ CHR '':'' # ('' '' @ str_opt (color run) @ ''; '') else [])"
    by (simp add: run_style_def)
  then show ?thesis using that [of "float_str env x" "x \<noteq> 0"] assms by blast
qed

text \<open>
  Claim C7, as stated, fails: the font name is copied into the style as it is, so a run
  that is not bold but whose font name holds the text of the bold declaration has a style
  that contains \<open>font-weight: bold;\<close>.
\<close>

theorem C7_font_name_can_inject_declaration:
  "sublist ''font-weight: bold;'' (run_style env_ok injected_run) \<and>
   bold injected_run \<noteq> Some True"
  by (simp add: run_style_def injected_run_def str_opt_def truthy_str_def sublist_Cons_right)

text \<open>
  Claim C7, amended.  For a run whose font name, printed font size and colour hold no
  colon, the style contains \<open>font-weight: bold;\<close> exactly when \<open>bold\<close> is true,
  \<open>font-style: italic;\<close> exactly when \<open>italic\<close> is true and a \<open>color: \<close>
  declaration exactly when the colour is a non-empty string, and it never contains
  \<open>font-weight: normal\<close> or \<open>font-style: normal\<close>.  A run with bold true, italic false
  and no colour has the bold declaration and neither of the other two.
\<close>

theorem C7_declarations_follow_flags:
  assumes "CHR '':'' \<notin> set (str_opt (font_name run))"
    and "\<forall>x. CHR '':'' \<notin> set (float_str env x)"
    and "CHR '':'' \<notin> set (str_opt (color run))"
  shows "(sublist ''font-weight: bold;'' (run_style env run) \<longleftrightarrow> bold run = Some True) \<and>
         (sublist ''font-style: italic;'' (run_style env run) \<longleftrightarrow> italic run = Some True) \<and>
         (sublist ''color: '' (run_style env run) \<longleftrightarrow> truthy_str (color run)) \<and>
         \<not> sublist ''font-weight: normal'' (run_style env run) \<and>
         \<not> sublist ''font-style: normal'' (run_style env run)"
proof -
  from run_style_pieces [OF assms(2), of run] obtain c2 F where F: "CHR '':'' \<notin> set F" and
    S: "run_style env run =
       ''font-family'' @ CHR '':'' # ('' '' @ str_opt (font_name run) @ ''; '') @
       (if c2 then ''font-size'' @ CHR '':'' # ('' '' @ F @ ''pt; '') else []) @
       (if bold run = Some True then ''font-weight'' @ CHR '':'' # '' bold; '' else []) @
       (if italic run = Some True then ''font-style'' @ CHR '':'' # '' italic; '' else []) @
       (if truthy_str (color run) then ''color'' @ CHR '':'' # ('' '' @ str_opt (color run) @ ''; '') else [])"
    by blast
  have nc: "CHR '':'' \<notin> set (''font-family'' @ ('' '' @ str_opt (font_name run) @ ''; '') @
      ''font-size'' @ ('' '' @ F @ ''pt; '') @ ''font-weight'' @ '' bold; '' @
      ''font-style'' @ '' italic; '' @ ''color'' @ ('' '' @ str_opt (color run) @ ''; ''))"
    using assms(1,3) F by simp
  note occ = occurs_five_pieces [OF nc]
  have a: "sublist ''font-weight: bold;'' (run_style env run) \<longleftrightarrow> bold run = Some True"
    unfolding decl_occurs S occ by (simp add: suffix_to_prefix)
  have b: "sublist ''font-style: italic;'' (run_style env run) \<longleftrightarrow> italic run = Some True"
    unfolding decl_occurs S occ by (simp add: suffix_to_prefix)
  have c: "sublist ''color: '' (run_style env run) \<longleftrightarrow> truthy_str (color run)"
    unfolding decl_occurs S occ by (simp add: suffix_to_prefix)
  have d: "\<not> sublist ''font-weight: normal'' (run_style env run)"
    unfolding decl_occurs S occ by (simp add: suffix_to_prefix)
  have e: "\<not> sublist ''font-style: normal'' (run_style env run)"
    unfolding decl_occurs S occ by (simp add: suffix_to_prefix)
  from a b c d e show ?thesis by blast
qed

theorem C7_declarations_follow_flags_witness:
  "CHR '':'' \<notin> set (str_opt (font_name title_run)) \<and>
   (\<forall>x. CHR '':'' \<notin> set (float_str env_ok x)) \<and>
   CHR '':'' \<notin> set (str_opt (color title_run)) \<and>
   bold title_run = Some True \<and> italic title_run = Some False \<and> color title_run = None \<and>
   sublist ''font-weight: bold;'' (run_style env_ok title_run) \<and>
   \<not> sublist ''font-style: italic;'' (run_style env_ok title_run) \<and>
   \<not> sublist ''color: '' (run_style env_ok title_run)"
proof -
  have h1: "CHR '':'' \<notin> set (str_opt (font_name title_run))"
    by (simp add: title_run_def str_opt_def)
  have h2: "\<forall>x. CHR '':'' \<notin> set (float_str env_ok x)"
    by (simp add: env_ok_def str_int_no_colon)
  have h3: "CHR '':'' \<notin> set (str_opt (color title_run))"
    by (simp add: title_run_def str_opt_def)
  have t: "bold title_run = Some True \<and> italic title_run = Some False \<and> color title_run = None"
    by (simp add: title_run_def)
  from C7_declarations_follow_flags [OF h1 h2 h3] h1 h2 h3 t
  show ?thesis by (simp add: truthy_str_def)
qed

section \<open>Properties of the extractor\<close>

lemma collect_raises:
  "\<exists>x\<in>set xs. (case x of Inl e \<Rightarrow> True | Inr y \<Rightarrow> isl (f y)) \<Longrightarrow> isl (collect f xs)"
proof (induction f xs rule: collect.induct)
  case (3 f x rest)
  then show ?case
    by (cases "f x"; cases "collect f rest") (auto simp: bind_exn_def)
qed auto

lemma extract_paragraph_raises:
  "Inl e \<in> set (src_runs p) \<Longrightarrow> isl (extract_paragraph p)"
proof -
  assume "Inl e \<in> set (src_runs p)"
  then have "\<exists>x\<in>set (src_runs p). (case x of Inl e \<Rightarrow> True | Inr y \<Rightarrow> isl (Inr (extract_run y) :: py_exn + run_data))"
    by (auto intro!: bexI [of _ "Inl e"])
  from collect_raises [OF this] show ?thesis
    by (cases "collect (\<lambda>run. Inr (extract_run run)) (src_runs p)") (auto simp: extract_paragraph_def bind_exn_def)
qed

lemma extract_text_frame_raises:
  assumes "(\<exists>e. Inl e \<in> set frame) \<or> (\<exists>p e. Inr p \<in> set frame \<and> Inl e \<in> set (src_runs p))"
  shows "\<exists>e. extract_text_frame frame = ([LogWarning (''Error extracting text frame: '' @ exn_str e)], [])"
proof -
  from assms have "\<exists>x\<in>set frame. (case x of Inl e \<Rightarrow> True | Inr y \<Rightarrow> isl (extract_paragraph y))"
  proof
    assume "\<exists>e. Inl e \<in> set frame"
    then obtain e where "Inl e \<in> set frame" ..
    then show ?thesis by (auto intro!: bexI [of _ "Inl e"])
  next
    assume "\<exists>p e. Inr p \<in> set frame \<and> Inl e \<in> set (src_runs p)"
    then obtain p e where "Inr p \<in> set frame" "Inl e \<in> set (src_runs p)" by blast
    then show ?thesis using extract_paragraph_raises by (auto intro!: bexI [of _ "Inr p"])
  qed
  from collect_raises [OF this] obtain e where "collect extract_paragraph frame = Inl e"
    by (cases "collect extract_paragraph frame") auto
  then show ?thesis by (auto simp: extract_text_frame_def)
qed

lemma extract_slide_data_append:
  "snd (extract_slide_data env (pre @ shape # post)) =
     snd (extract_slide_data env pre) @ snd (extract_shape env shape) # snd (extract_slide_data env post)"
  by (simp add: extract_slide_data_def)

text \<open>
  Claim C8.  When reading a paragraph or a run of a shape's text frame raises,
  \<open>extract_text_frame\<close> logs one warning and returns the empty list: the record of
  the shape is the one it would have with an empty text frame, its \<open>text_frame\<close> is the
  empty paragraph list, and the slide and the presentation still get one record for
  every shape, those before and after the failing one included.
\<close>

theorem C8_text_frame_failure_recovered:
  assumes "src_has_text_frame shape"
    and "(\<exists>e. Inl e \<in> set (src_text_frame shape)) \<or>
         (\<exists>p e. Inr p \<in> set (src_text_frame shape) \<and> Inl e \<in> set (src_runs p))"
  shows "(\<exists>e. extract_text_frame (src_text_frame shape) =
             ([LogWarning (''Error extracting text frame: '' @ exn_str e)], [])) \<and>
         (\<exists>e. fst (extract_shape env shape) =
             [LogWarning (''Error extracting text frame: '' @ exn_str e)]) \<and>
         snd (extract_shape env shape) = snd (extract_shape env (shape\<lparr>src_text_frame := []\<rparr>)) \<and>
         text_frame (snd (extract_shape env shape)) = Some [] \<and>
         snd (extract_slide_data env (pre @ shape # post)) =
           snd (extract_slide_data env pre) @
           (snd (extract_shape env shape)) # snd (extract_slide_data env post) \<and>
         length (snd (extract_slide_data env (pre @ shape # post))) = length pre + 1 + length post \<and>
         snd (extract_all env (before @ (pre @ shape # post) # after)) =
           snd (extract_all env before) @
           snd (extract_slide_data env (pre @ shape # post)) # snd (extract_all env after)"
proof -
  from extract_text_frame_raises [OF assms(2)] obtain e where
    e: "extract_text_frame (src_text_frame shape) =
             ([LogWarning (''Error extracting text frame: '' @ exn_str e)], [])" ..
  have a: "fst (extract_shape env shape) = [LogWarning (''Error extracting text frame: '' @ exn_str e)]"
    using assms(1) e by (simp add: extract_shape_def Let_def)
  have b: "snd (extract_shape env shape) = snd (extract_shape env (shape\<lparr>src_text_frame := []\<rparr>))"
    using assms(1) e by (simp add: extract_shape_def Let_def extract_text_frame_def get_fill_color_def)
  have c: "text_frame (snd (extract_shape env shape)) = Some []"
    using assms(1) e by (simp add: extract_shape_def Let_def)
  have d: "length (snd (extract_slide_data env (pre @ shape # post))) = length pre + 1 + length post"
    by (simp add: extract_slide_data_def)
  have f: "snd (extract_all env (before @ (pre @ shape # post) # after)) =
           snd (extract_all env before) @
           snd (extract_slide_data env (pre @ shape # post)) # snd (extract_all env after)"
    by (simp add: extract_all_def)
  from e a b c d f extract_slide_data_append [of env pre shape post] show ?thesis by blast
qed

theorem C8_text_frame_failure_recovered_witness:
  "src_has_text_frame broken_text_src \<and>
   extract_shape env_ok broken_text_src =
     ([LogWarning ''Error extracting text frame: malformed font element''],
      full_slide_shape \<lparr> text_frame := Some [] \<rparr>) \<and>
   snd (extract_slide_data env_ok [text_shape_src, broken_text_src, text_shape_src]) =
     [full_slide_shape, full_slide_shape \<lparr> text_frame := Some [] \<rparr>, full_slide_shape]"
proof -
  have h1: "src_has_text_frame broken_text_src"
    by (simp add: broken_text_src_def text_shape_src_def)
  have h2: "(\<exists>e. Inl e \<in> set (src_text_frame broken_text_src)) \<or>
         (\<exists>p e. Inr p \<in> set (src_text_frame broken_text_src) \<and> Inl e \<in> set (src_runs p))"
    by (simp add: broken_text_src_def text_shape_src_def raising_run_def)
  have x: "extract_shape env_ok broken_text_src =
     ([LogWarning ''Error extracting text frame: malformed font element''],
      full_slide_shape \<lparr> text_frame := Some [] \<rparr>)"
    by (simp add: extract_shape_def broken_text_src_def text_shape_src_def raising_run_def
        extract_text_frame_def extract_paragraph_def bind_exn_def get_fill_color_def
        full_slide_shape_def MSO_SHAPE_TYPE_PICTURE_def)
  from C8_text_frame_failure_recovered [OF h1 h2, of env_ok "[text_shape_src]" "[text_shape_src]"] h1 x
  show ?thesis by (simp add: extract_slide_data_def extract_text_shape)
qed

section \<open>Properties of the pool and the document\<close>

lemma run_pool_map_of:
  "i < length tasks \<Longrightarrow> i \<in> set schedule \<Longrightarrow>
   map_of (snd (run_pool tasks schedule)) i = Some (snd (tasks ! i))"
  by (induction schedule) (auto split: prod.split)

lemma run_pool_failures_empty:
  "\<forall>i<length tasks. \<not> isl (snd (tasks ! i)) \<Longrightarrow> failures (snd (run_pool tasks schedule)) = []"
proof (induction schedule)
  case (Cons i schedule)
  show ?case
  proof (cases "i < length tasks")
    case True
    with Cons.prems obtain x where "snd (tasks ! i) = Inr x" by (cases "snd (tasks ! i)") auto
    with True Cons show ?thesis by (auto split: prod.split)
  qed (use Cons in simp)
qed simp

lemma failures_append_event:
  "failures ((i, r) # rs) = [] \<longleftrightarrow> \<not> isl r \<and> failures rs = []"
  by (cases r) auto

lemma run_pool_failures_nonempty:
  "i < length tasks \<Longrightarrow> i \<in> set schedule \<Longrightarrow> isl (snd (tasks ! i)) \<Longrightarrow>
   failures (snd (run_pool tasks schedule)) \<noteq> []"
  by (induction schedule) (auto split: prod.split simp: failures_append_event)

lemma failures_in_pool:
  "e \<in> set (failures (snd (run_pool tasks schedule))) \<Longrightarrow> \<exists>i<length tasks. snd (tasks ! i) = Inl e"
proof (induction schedule)
  case (Cons i schedule)
  show ?case
  proof (cases "i < length tasks")
    case True
    show ?thesis
    proof (cases "snd (tasks ! i)")
      case (Inl a)
      with True Cons show ?thesis by (auto split: prod.splits)
    next
      case (Inr b)
      with True Cons show ?thesis by (auto split: prod.splits)
    qed
  qed (use Cons in simp)
qed simp

lemma pool_starmap_alt:
  "pool_starmap tasks schedule =
     (case failures (snd (run_pool tasks schedule)) of
        e # _ \<Rightarrow> (fst (run_pool tasks schedule), Inl e)
      | [] \<Rightarrow> (fst (run_pool tasks schedule),
               Inr (concat (map (result_at (snd (run_pool tasks schedule))) [0..<length tasks]))))"
  by (cases "run_pool tasks schedule") (simp add: pool_starmap_def split: list.split)

lemma pool_starmap_success:
  assumes "{..<length tasks} \<subseteq> set schedule" and "map snd tasks = map Inr xs"
  shows "snd (pool_starmap tasks schedule) = Inr xs"
proof -
  have len: "length xs = length tasks" using assms(2) by (metis length_map)
  have nth: "\<And>i. i < length tasks \<Longrightarrow> snd (tasks ! i) = Inr (xs ! i)"
    using assms(2) len by (metis nth_map)
  then have "\<forall>i<length tasks. \<not> isl (snd (tasks ! i))" by simp
  then have f: "failures (snd (run_pool tasks schedule)) = []" by (rule run_pool_failures_empty)
  have "map (result_at (snd (run_pool tasks schedule))) [0..<length tasks] = map (\<lambda>i. [xs ! i]) [0..<length tasks]"
  proof (rule map_cong [OF refl])
    fix i assume "i \<in> set [0..<length tasks]"
    then have i: "i < length tasks" by simp
    with assms(1) have "i \<in> set schedule" by auto
    from run_pool_map_of [OF i this] nth [OF i]
    show "result_at (snd (run_pool tasks schedule)) i = [xs ! i]" by (simp add: result_at_def)
  qed
  then have "concat (map (result_at (snd (run_pool tasks schedule))) [0..<length tasks]) =
      concat (map (\<lambda>i. [xs ! i]) [0..<length tasks])"
    by (rule arg_cong)
  also have "\<dots> = map (\<lambda>i. xs ! i) [0..<length tasks]"
    by (rule concat_map_singleton)
  also have "\<dots> = xs" using len by (metis map_nth)
  finally show ?thesis using f by (simp add: pool_starmap_alt)
qed

lemma pool_starmap_failure:
  assumes "{..<length tasks} \<subseteq> set schedule" and "i < length tasks" and "isl (snd (tasks ! i))"
  shows "\<exists>e j. j < length tasks \<and> snd (tasks ! j) = Inl e \<and> snd (pool_starmap tasks schedule) = Inl e"
proof -
  from assms have "i \<in> set schedule" by auto
  from run_pool_failures_nonempty [OF assms(2) this assms(3)]
  obtain e es where f: "failures (snd (run_pool tasks schedule)) = e # es"
    by (cases "failures (snd (run_pool tasks schedule))") auto
  then have "e \<in> set (failures (snd (run_pool tasks schedule)))" by simp
  from failures_in_pool [OF this] obtain j where "j < length tasks" "snd (tasks ! j) = Inl e" by blast
  then show ?thesis using f by (auto simp: pool_starmap_alt)
qed

lemma length_document_tasks [simp]:
  "length (document_tasks env slides out ig) = length slides"
  by (simp add: document_tasks_def slide_tasks_def extract_all_def)

lemma html_of_pptx_to_html:
  "snd (pptx_to_html env f slides out ig schedule) =
     assemble (case snd (pool_starmap (document_tasks env slides out ig) schedule) of
                 Inr slide_contents \<Rightarrow> slide_contents | Inl e \<Rightarrow> [])"
  by (simp add: pptx_to_html_def Let_def render_slides_def document_tasks_def
           split: prod.split sum.split)

lemma events_of_pptx_to_html:
  "fst (pptx_to_html env f slides out ig schedule) =
     [LogInfo (''Opening PowerPoint file: '' @ f),
      MakeDirs (os_path_join (os_path_dirname out) ''images''),
      LogInfo ''Extracting slide data...''] @ fst (extract_all env slides) @
     [LogInfo ''Processing slides...''] @
     fst (pool_starmap (document_tasks env slides out ig) schedule) @
     (case snd (pool_starmap (document_tasks env slides out ig) schedule) of
        Inr slide_contents \<Rightarrow> []
      | Inl e \<Rightarrow> [LogError (''An error occurred during slide processing: '' @ exn_str e)]) @
     [LogInfo (''Writing HTML content to '' @ out),
      WriteFile out (snd (pptx_to_html env f slides out ig schedule))]"
  by (simp add: pptx_to_html_def Let_def render_slides_def document_tasks_def
           split: prod.split sum.split)

lemma html_success:
  assumes "completion_order (length slides) schedule"
    and "map snd (document_tasks env slides out ig) = map Inr frags"
  shows "snd (pptx_to_html env f slides out ig schedule) = assemble frags"
proof -
  from assms(1) have "{..<length (document_tasks env slides out ig)} \<subseteq> set schedule"
    by (simp add: completion_order_def)
  from pool_starmap_success [OF this assms(2)] show ?thesis
    by (simp add: html_of_pptx_to_html)
qed

lemma html_failure:
  assumes "completion_order (length slides) schedule"
    and "i < length slides" and "isl (snd (document_tasks env slides out ig ! i))"
  shows "snd (pptx_to_html env f slides out ig schedule) = assemble []"
    and "\<exists>e j. j < length slides \<and> snd (document_tasks env slides out ig ! j) = Inl e \<and>
           LogError (''An error occurred during slide processing: '' @ exn_str e)
             \<in> set (fst (pptx_to_html env f slides out ig schedule))"
    and "WriteFile out (assemble []) \<in> set (fst (pptx_to_html env f slides out ig schedule))"
proof -
  from assms(1) have s: "{..<length (document_tasks env slides out ig)} \<subseteq> set schedule"
    by (simp add: completion_order_def)
  from assms(2) have i: "i < length (document_tasks env slides out ig)" by simp
  from pool_starmap_failure [OF s i assms(3)] obtain e j where
    j: "j < length slides" "snd (document_tasks env slides out ig ! j) = Inl e"
    and p: "snd (pool_starmap (document_tasks env slides out ig) schedule) = Inl e" by auto
  show h: "snd (pptx_to_html env f slides out ig schedule) = assemble []"
    by (simp add: html_of_pptx_to_html p)
  have "LogError (''An error occurred during slide processing: '' @ exn_str e)
             \<in> set (fst (pptx_to_html env f slides out ig schedule))"
    by (simp add: events_of_pptx_to_html p)
  with j show "\<exists>e j. j < length slides \<and> snd (document_tasks env slides out ig ! j) = Inl e \<and>
           LogError (''An error occurred during slide processing: '' @ exn_str e)
             \<in> set (fst (pptx_to_html env f slides out ig schedule))" by blast
  show "WriteFile out (assemble []) \<in> set (fst (pptx_to_html env f slides out ig schedule))"
    by (simp add: events_of_pptx_to_html h)
qed

lemma html_schedule_independent:
  assumes "completion_order (length slides) schedule" and "completion_order (length slides) schedule'"
  shows "snd (pptx_to_html env f slides out ig schedule) = snd (pptx_to_html env f slides out ig schedule')"
proof (cases "\<exists>i<length slides. isl (snd (document_tasks env slides out ig ! i))")
  case True
  then obtain i where "i < length slides" "isl (snd (document_tasks env slides out ig ! i))" by blast
  from html_failure(1) [OF assms(1) this] html_failure(1) [OF assms(2) this] show ?thesis by simp
next
  case False
  let ?t = "document_tasks env slides out ig"
  have "map snd ?t = map Inr (map (\<lambda>t. projr (snd t)) ?t)"
  proof (rule nth_equalityI)
    show "length (map snd ?t) = length (map Inr (map (\<lambda>t. projr (snd t)) ?t))" by simp
    fix i assume "i < length (map snd ?t)"
    then have i: "i < length slides" by simp
    with False have "\<not> isl (snd (?t ! i))" by blast
    then show "map snd ?t ! i = map Inr (map (\<lambda>t. projr (snd t)) ?t) ! i"
      using i by (cases "snd (?t ! i)") auto
  qed
  from html_success [OF assms(1) this] html_success [OF assms(2) this] show ?thesis by simp
qed

lemma completion_order_upt: "completion_order n [0..<n]"
  by (auto simp: completion_order_def)

lemma extract_picture_src:
  "b64encode env ''iVBORw0KGgo='' = ''iVBORw0KGgo='' \<Longrightarrow> extract_shape env picture_src = ([], picture_shape)"
  by (simp add: extract_shape_def picture_src_def text_shape_src_def extract_text_frame_def
      extract_paragraph_def bind_exn_def extract_run_def rgb_to_hex_def get_fill_color_def
      picture_shape_def full_slide_shape_def title_run_def MSO_SHAPE_TYPE_PICTURE_def)

lemma image_dir_example:
  "os_path_join (os_path_dirname ''out/deck.html'') ''images'' = ''out/images''"
  by (simp add: os_path_dirname_def os_path_join_def)

lemma image_filename_1_0: "image_filename (Suc 0) 0 = ''slide_2_image_1.png''"
  by code_simp

lemma tasks_three_slides:
  "document_tasks env_ok three_slides ''out/deck.html'' False =
     [([], Inr hello_fragment),
      ([SavePng ''out/images/slide_2_image_1.png'' ''iVBORw0KGgo=''],
       Inr (img_fragment ''slide_2_image_1.png'' picture_style)),
      ([], Inr '''')]"
proof -
  have e: "b64encode env_ok ''iVBORw0KGgo='' = ''iVBORw0KGgo=''" by (simp add: env_ok_def)
  have u: "[0..<3] = [0, Suc 0, Suc (Suc 0)]" by (simp add: upt_rec)
  have p: "process_shape_data env_ok 0 picture_shape ''out/images'' (Suc 0) False =
      ([SavePng ''out/images/slide_2_image_1.png'' ''iVBORw0KGgo=''],
       Inr (img_fragment ''slide_2_image_1.png'' picture_style))"
    unfolding picture_case [OF picture_shape_type common_style_picture]
    by (simp add: image_filename_1_0 picture_style_def picture_shape_def full_slide_shape_def
          env_ok_def os_path_join_def)
  show ?thesis
    by (simp add: document_tasks_def slide_tasks_def extract_all_def extract_slide_data_def
        three_slides_def extract_text_shape extract_picture_src [OF e] image_dir_example u
        process_slide_def text_shape_fragment p ret_def)
qed

lemma tasks_two_slides:
  "document_tasks env_bomb two_slides ''out/deck.html'' False =
     [([], Inr hello_fragment), ([], Inl (Exn OtherException ''Image size exceeds limit''))]"
proof -
  have e: "b64encode env_bomb ''iVBORw0KGgo='' = ''iVBORw0KGgo=''" by (simp add: env_bomb_def env_ok_def)
  have u: "[0..<2] = [0, Suc 0]" by (simp add: upt_rec)
  have p: "process_shape_data env_bomb 0 picture_shape ''out/images'' (Suc 0) False =
      ([], Inl (Exn OtherException ''Image size exceeds limit''))"
    unfolding picture_case [OF picture_shape_type common_style_picture]
    by (simp add: picture_shape_def full_slide_shape_def env_bomb_def env_ok_def)
  show ?thesis
    by (simp add: document_tasks_def slide_tasks_def extract_all_def extract_slide_data_def
        two_slides_def extract_text_shape extract_picture_src [OF e] image_dir_example u
        process_slide_def text_shape_fragment p ret_def)
qed

lemma completion_order_210: "completion_order (length three_slides) [2, 1, 0]"
  by (auto simp: completion_order_def three_slides_def)

lemma completion_order_01: "completion_order (length two_slides) [0, 1]"
  by (auto simp: completion_order_def two_slides_def)

lemma document_tasks_nth:
  "i < length slides \<Longrightarrow>
   document_tasks env slides out ig ! i =
     process_slide env (snd (extract_slide_data env (slides ! i)))
       (os_path_join (os_path_dirname out) ''images'') i ig"
  by (simp add: document_tasks_def slide_tasks_def extract_all_def)

lemma html_by_slides:
  assumes "completion_order (length slides) schedule" and "length frags = length slides"
    and "\<forall>k<length slides.
           snd (process_slide env (snd (extract_slide_data env (slides ! k)))
                  (os_path_join (os_path_dirname out) ''images'') k ig) = Inr (frags ! k)"
  shows "snd (pptx_to_html env f slides out ig schedule) = assemble frags"
proof -
  have "map snd (document_tasks env slides out ig) = map Inr frags"
    by (rule nth_equalityI) (simp_all add: assms(2,3) document_tasks_nth)
  from html_success [OF assms(1) this] show ?thesis .
qed

lemma slide_div_fun:
  \<open>slide_div = (\<lambda>content.
     ''<div class="slide bg-white shadow-lg rounded-lg"><div class="slide-content">'' @
     content @ ''</div></div>'')\<close>
  by (rule ext) (simp add: slide_div_def)

lemma written_output:
  "WriteFile out (snd (pptx_to_html env f slides out ig schedule))
     \<in> set (fst (pptx_to_html env f slides out ig schedule))"
  by (simp add: events_of_pptx_to_html)

lemma tasks_three_slides_nth:
  assumes "k < length three_slides"
  shows "process_slide env_ok (snd (extract_slide_data env_ok (three_slides ! k)))
           (os_path_join (os_path_dirname ''out/deck.html'') ''images'') k False =
         [([], Inr hello_fragment),
          ([SavePng ''out/images/slide_2_image_1.png'' ''iVBORw0KGgo=''],
           Inr (img_fragment ''slide_2_image_1.png'' picture_style)),
          ([], Inr [])] ! k"
  using document_tasks_nth [OF assms, of env_ok "''out/deck.html''" False]
  by (simp add: tasks_three_slides)

text \<open>
  Claim C4.  Whatever the order in which the slide tasks complete, the document written
  is the one written when they complete in index order.  When rendering the extracted
  data of slide \<open>k\<close> under slide index \<open>k\<close> returns the fragment \<open>frags ! k\<close> for every
  slide of the deck, the document is the page header, then for \<open>k = 0, 1, ...\<close> in this
  order the slide container holding \<open>frags ! k\<close>, then the page footer.  Three slides
  completing in the order 2, 1, 0 give the containers of slides 0, 1 and 2 in that order.
\<close>

theorem C4_slide_order_is_index_order:
  assumes \<open>completion_order (length slides) schedule\<close>
  shows \<open>snd (pptx_to_html env f slides out ig schedule) =
           snd (pptx_to_html env f slides out ig [0..<length slides]) \<and>
         (\<forall>frags. length frags = length slides \<and>
            (\<forall>k<length slides.
               snd (process_slide env (snd (extract_slide_data env (slides ! k)))
                      (os_path_join (os_path_dirname out) ''images'') k ig) = Inr (frags ! k)) \<longrightarrow>
            snd (pptx_to_html env f slides out ig schedule) =
              html_header @
              concat (map (\<lambda>content.
                 ''<div class="slide bg-white shadow-lg rounded-lg"><div class="slide-content">'' @
                 content @ ''</div></div>'') frags) @
              ''</div></body></html>'')\<close>
proof -
  have a: "snd (pptx_to_html env f slides out ig schedule) =
           snd (pptx_to_html env f slides out ig [0..<length slides])"
    by (rule html_schedule_independent [OF assms completion_order_upt])
  have b: "snd (pptx_to_html env f slides out ig schedule) = assemble frags"
    if "length frags = length slides"
      and "\<forall>k<length slides.
           snd (process_slide env (snd (extract_slide_data env (slides ! k)))
                  (os_path_join (os_path_dirname out) ''images'') k ig) = Inr (frags ! k)"
    for frags
    by (rule html_by_slides [OF assms that])
  have c: "assemble frags = html_header @ concat (map slide_div frags) @ html_footer" for frags
    by (simp add: assemble_def)
  show ?thesis
  proof (intro conjI allI impI)
    show "snd (pptx_to_html env f slides out ig schedule) =
           snd (pptx_to_html env f slides out ig [0..<length slides])" by (rule a)
  next
    fix frags
    assume "length frags = length slides \<and>
            (\<forall>k<length slides.
               snd (process_slide env (snd (extract_slide_data env (slides ! k)))
                      (os_path_join (os_path_dirname out) ''images'') k ig) = Inr (frags ! k))"
    then have "snd (pptx_to_html env f slides out ig schedule) = assemble frags"
      using b by blast
    then show \<open>snd (pptx_to_html env f slides out ig schedule) =
              html_header @
              concat (map (\<lambda>content.
                 ''<div class="slide bg-white shadow-lg rounded-lg"><div class="slide-content">'' @
                 content @ ''</div></div>'') frags) @
              ''</div></body></html>''\<close>
      by (simp add: c slide_div_fun html_footer_def)
  qed
qed

theorem C4_slide_order_is_index_order_witness:
  \<open>completion_order (length three_slides) [2, 1, 0] \<and> length three_slides = 3 \<and>
   process_slide env_ok (snd (extract_slide_data env_ok (three_slides ! 0))) ''out/images'' 0 False =
     ([], Inr hello_fragment) \<and>
   process_slide env_ok (snd (extract_slide_data env_ok (three_slides ! 1))) ''out/images'' 1 False =
     ([SavePng ''out/images/slide_2_image_1.png'' ''iVBORw0KGgo=''],
      Inr (img_fragment ''slide_2_image_1.png'' picture_style)) \<and>
   process_slide env_ok (snd (extract_slide_data env_ok (three_slides ! 2))) ''out/images'' 2 False =
     ([], Inr []) \<and>
   snd (pptx_to_html env_ok ''deck.pptx'' three_slides ''out/deck.html'' False [2, 1, 0]) =
     html_header @
     ''<div class="slide bg-white shadow-lg rounded-lg"><div class="slide-content">'' @
     hello_fragment @ ''</div></div>'' @
     ''<div class="slide bg-white shadow-lg rounded-lg"><div class="slide-content">'' @
     img_fragment ''slide_2_image_1.png'' picture_style @ ''</div></div>'' @
     ''<div class="slide bg-white shadow-lg rounded-lg"><div class="slide-content">'' @
     ''</div></div>'' @
     ''</div></body></html>''\<close>
proof -
  note c = completion_order_210
  let ?frags = "[hello_fragment, img_fragment ''slide_2_image_1.png'' picture_style, []]"
  have n: "length three_slides = 3" by (simp add: three_slides_def)
  have k0: "0 < length three_slides" and k1: "1 < length three_slides"
    and k2: "2 < length three_slides" by (simp_all add: n)
  have s0: "process_slide env_ok (snd (extract_slide_data env_ok (three_slides ! 0)))
              ''out/images'' 0 False = ([], Inr hello_fragment)"
    using tasks_three_slides_nth [OF k0] by (simp add: image_dir_example)
  have s1: "process_slide env_ok (snd (extract_slide_data env_ok (three_slides ! 1)))
              ''out/images'' 1 False =
            ([SavePng ''out/images/slide_2_image_1.png'' ''iVBORw0KGgo=''],
             Inr (img_fragment ''slide_2_image_1.png'' picture_style))"
    using tasks_three_slides_nth [OF k1] by (simp add: image_dir_example)
  have s2: "process_slide env_ok (snd (extract_slide_data env_ok (three_slides ! 2)))
              ''out/images'' 2 False = ([], Inr [])"
    using tasks_three_slides_nth [OF k2] by (simp add: image_dir_example)
  have t: "\<forall>k<length three_slides.
             snd (process_slide env_ok (snd (extract_slide_data env_ok (three_slides ! k)))
                    (os_path_join (os_path_dirname ''out/deck.html'') ''images'') k False) =
             Inr (?frags ! k)"
  proof (intro allI impI)
    fix k assume k: "k < length three_slides"
    then have "k = 0 \<or> k = 1 \<or> k = 2" unfolding n by arith
    with tasks_three_slides_nth [OF k]
    show "snd (process_slide env_ok (snd (extract_slide_data env_ok (three_slides ! k)))
                 (os_path_join (os_path_dirname ''out/deck.html'') ''images'') k False) =
          Inr (?frags ! k)"
      by auto
  qed
  have l: "length ?frags = length three_slides" by (simp add: n)
  from C4_slide_order_is_index_order [OF c, of env_ok "''deck.pptx''" "''out/deck.html''" False]
    l t
  have \<open>snd (pptx_to_html env_ok ''deck.pptx'' three_slides ''out/deck.html'' False [2, 1, 0]) =
     html_header @
     concat (map (\<lambda>content.
        ''<div class="slide bg-white shadow-lg rounded-lg"><div class="slide-content">'' @
        content @ ''</div></div>'') ?frags) @
     ''</div></body></html>''\<close>
    by blast
  with c n s0 s1 s2 show ?thesis by simp
qed

text \<open>
  Claim C3, as stated, fails: the \<open>try\<close> in \<open>pptx_to_html\<close> encloses the whole
  \<open>starmap\<close> call.  In a deck of two slides whose second slide holds a picture that the
  imaging library rejects with an exception other than \<open>OSError\<close>, the exception
  leaves the task of slide 1, and the document written has no slide at all: the fragment
  of slide 0 is lost too.
\<close>

theorem C3_one_failure_empties_document:
  "snd (pptx_to_html env_bomb ''deck.pptx'' two_slides ''out/deck.html'' False [0, 1]) =
     html_header @ html_footer \<and>
   snd (pptx_to_html env_bomb ''deck.pptx'' two_slides ''out/deck.html'' False [0, 1]) \<noteq>
     html_header @ slide_div hello_fragment @ slide_div '''' @ html_footer"
proof -
  note c = completion_order_01
  have i: "Suc 0 < length two_slides" by (simp add: two_slides_def)
  have f: "isl (snd (document_tasks env_bomb two_slides ''out/deck.html'' False ! Suc 0))"
    by (simp add: tasks_two_slides)
  from html_failure(1) [OF c i f, of "''deck.pptx''"] show ?thesis
    by (simp add: assemble_def slide_div_def)
qed

text \<open>
  Claim C3, amended.  When the task of some slide raises, \<open>pptx_to_html\<close> logs the
  exception of a failed task as an error, sets the list of slide fragments to the empty
  list, and still writes the output file, which then holds the page header and footer
  and no slide.
\<close>

theorem C3_failure_discards_all_slides:
  assumes "completion_order (length slides) schedule"
    and "i < length slides" and "snd (document_tasks env slides out ig ! i) = Inl e"
  shows "snd (pptx_to_html env f slides out ig schedule) = html_header @ html_footer \<and>
         (\<exists>e' j. j < length slides \<and> snd (document_tasks env slides out ig ! j) = Inl e' \<and>
            LogError (''An error occurred during slide processing: '' @ exn_str e')
              \<in> set (fst (pptx_to_html env f slides out ig schedule))) \<and>
         WriteFile out (html_header @ html_footer)
           \<in> set (fst (pptx_to_html env f slides out ig schedule))"
proof -
  from assms(3) have "isl (snd (document_tasks env slides out ig ! i))" by simp
  from html_failure [OF assms(1,2) this, of f] show ?thesis by (simp add: assemble_def)
qed

theorem C3_failure_discards_all_slides_witness:
  "completion_order (length two_slides) [0, 1] \<and> Suc 0 < length two_slides \<and>
   snd (document_tasks env_bomb two_slides ''out/deck.html'' False ! 0) = Inr hello_fragment \<and>
   snd (document_tasks env_bomb two_slides ''out/deck.html'' False ! Suc 0) =
     Inl (Exn OtherException ''Image size exceeds limit'') \<and>
   snd (pptx_to_html env_bomb ''deck.pptx'' two_slides ''out/deck.html'' False [0, 1]) =
     html_header @ html_footer \<and>
   WriteFile ''out/deck.html'' (html_header @ html_footer)
     \<in> set (fst (pptx_to_html env_bomb ''deck.pptx'' two_slides ''out/deck.html'' False [0, 1]))"
proof -
  note c = completion_order_01
  have i: "Suc 0 < length two_slides" by (simp add: two_slides_def)
  have f: "snd (document_tasks env_bomb two_slides ''out/deck.html'' False ! Suc 0) =
     Inl (Exn OtherException ''Image size exceeds limit'')"
    by (simp add: tasks_two_slides)
  have g: "snd (document_tasks env_bomb two_slides ''out/deck.html'' False ! 0) = Inr hello_fragment"
    by (simp add: tasks_two_slides)
  from C3_failure_discards_all_slides [OF c i f, of "''deck.pptx''"] c i f g
  show ?thesis by simp
qed

subsection \<open>Image failures\<close>

lemma failure_texts:
  "failure_fragment (Suc 0) (Suc 0) = ''<p>[Image processing failed for slide 2, shape 2]</p>''"
  "failure_warning (Suc 0) (Suc 0) (Exn OSError ''cannot identify image file'') =
     ''Failed to process image on slide 2, shape 2: cannot identify image file''"
  "str_int 2 = ''2''"
  by code_simp+

lemma assemble_text:
  \<open>assemble frags =
     html_header @
     concat (map (\<lambda>content.
        ''<div class="slide bg-white shadow-lg rounded-lg"><div class="slide-content">'' @
        content @ ''</div></div>'') frags) @
     ''</div></body></html>''\<close>
  by (simp add: assemble_def slide_div_fun html_footer_def)

lemma extract_failing_slide:
  "snd (extract_slide_data env_oserror (failing_deck ! Suc 0)) =
     [full_slide_shape] @ picture_shape # [full_slide_shape]"
proof -
  have e: "b64encode env_oserror ''iVBORw0KGgo='' = ''iVBORw0KGgo=''"
    by (simp add: env_oserror_def env_ok_def)
  show ?thesis
    by (simp add: failing_deck_def extract_slide_data_def extract_text_shape
          extract_picture_src [OF e])
qed

lemma extract_first_slide:
  "snd (extract_slide_data env_oserror (failing_deck ! 0)) = [full_slide_shape]"
  by (simp add: failing_deck_def extract_slide_data_def extract_text_shape)

lemma completion_order_10: "completion_order (length failing_deck) [1, 0]"
  by (auto simp: completion_order_def failing_deck_def)

text \<open>
  Claim C5, as stated, fails: only an \<open>OSError\<close> of the imaging library is caught.
  Under an environment whose decoder raises another exception (the library's
  decompression-bomb error is one) the exception leaves \<open>process_shape_data\<close> and no
  placeholder is returned.
\<close>

theorem C5_non_oserror_failure_propagates:
  "process_shape_data env_bomb 1 picture_shape ''out/images'' 0 False =
     ([], Inl (Exn OtherException ''Image size exceeds limit'')) \<and>
   snd (process_shape_data env_bomb 1 picture_shape ''out/images'' 0 False) \<noteq>
     Inr ''<p>[Image processing failed for slide 1, shape 2]</p>''"
  unfolding picture_case [OF picture_shape_type common_style_picture]
  by (simp add: picture_shape_def full_slide_shape_def env_bomb_def env_ok_def)

text \<open>
  Claim C5, amended.  Take a picture shape with image data, rendered with image export
  enabled at slide index \<open>i\<close> and shape index \<open>j\<close>.  When opening or saving the decoded
  bytes raises an \<open>OSError\<close>, \<open>process_shape_data\<close> logs a warning and returns the
  placeholder paragraph that names the slide and the shape counted from one, instead of
  raising.  The slide goes on: where the shapes before and after the picture render,
  \<open>process_slide\<close> returns their fragments with the placeholder between them.  The
  document goes on to completion: in a deck that holds this slide at index \<open>i\<close> and
  whose other slides render, \<open>pptx_to_html\<close> writes the page with every slide container
  in place, the one of slide \<open>i\<close> holding the placeholder.  When the imaging library
  raises an exception of another class, or when decoding the base64 text raises, which
  happens before the \<open>try\<close> block, the exception leaves \<open>process_shape_data\<close>.
\<close>

theorem C5_only_oserror_gives_placeholder:
  assumes \<open>shape_type sd = MSO_SHAPE_TYPE_PICTURE\<close> and \<open>common_style sd = Inr style\<close>
    and \<open>image_b64 sd = Some b64\<close>
  shows \<open>(\<forall>bytes e.
            b64decode env b64 = Inr bytes \<and>
            image_save env bytes (os_path_join dir (image_filename i j)) = Some e \<and>
            exn_class_of e = OSError \<longrightarrow>
            process_shape_data env j sd dir i False =
              ([LogWarning (failure_warning i j e)],
               Inr (''<p>[Image processing failed for slide '' @ str_int (int i + 1) @
                    '', shape '' @ str_int (int j + 1) @ '']</p>''))) \<and>
         (\<forall>bytes e pre post evs0 fs0 evs1 fs1.
            b64decode env b64 = Inr bytes \<and>
            image_save env bytes (os_path_join dir (image_filename i j)) = Some e \<and>
            exn_class_of e = OSError \<and> j = length pre \<and>
            process_shapes env 0 pre dir i False = (evs0, Inr fs0) \<and>
            process_shapes env (Suc j) post dir i False = (evs1, Inr fs1) \<longrightarrow>
            process_slide env (pre @ sd # post) dir i False =
              (evs0 @ LogWarning (failure_warning i j e) # evs1,
               Inr (concat fs0 @
                    ''<p>[Image processing failed for slide '' @ str_int (int i + 1) @
                    '', shape '' @ str_int (int j + 1) @ '']</p>'' @ concat fs1))) \<and>
         (\<forall>bytes e pre post evs0 fs0 evs1 fs1 slides f out schedule frags.
            b64decode env b64 = Inr bytes \<and>
            image_save env bytes (os_path_join dir (image_filename i j)) = Some e \<and>
            exn_class_of e = OSError \<and> j = length pre \<and>
            process_shapes env 0 pre dir i False = (evs0, Inr fs0) \<and>
            process_shapes env (Suc j) post dir i False = (evs1, Inr fs1) \<and>
            completion_order (length slides) schedule \<and> i < length slides \<and>
            dir = os_path_join (os_path_dirname out) ''images'' \<and>
            snd (extract_slide_data env (slides ! i)) = pre @ sd # post \<and>
            length frags = length slides \<and>
            (\<forall>k<length slides. k \<noteq> i \<longrightarrow>
               snd (process_slide env (snd (extract_slide_data env (slides ! k))) dir k False) =
                 Inr (frags ! k)) \<longrightarrow>
            snd (pptx_to_html env f slides out False schedule) =
              html_header @
              concat (map (\<lambda>content.
                 ''<div class="slide bg-white shadow-lg rounded-lg"><div class="slide-content">'' @
                 content @ ''</div></div>'')
                 (frags[i := concat fs0 @
                    ''<p>[Image processing failed for slide '' @ str_int (int i + 1) @
                    '', shape '' @ str_int (int j + 1) @ '']</p>'' @ concat fs1])) @
              ''</div></body></html>'' \<and>
            WriteFile out (snd (pptx_to_html env f slides out False schedule))
              \<in> set (fst (pptx_to_html env f slides out False schedule))) \<and>
         (\<forall>bytes e.
            b64decode env b64 = Inr bytes \<and>
            image_save env bytes (os_path_join dir (image_filename i j)) = Some e \<and>
            exn_class_of e \<noteq> OSError \<longrightarrow>
            process_shape_data env j sd dir i False = ([], Inl e)) \<and>
         (\<forall>e. b64decode env b64 = Inl e \<longrightarrow>
            process_shape_data env j sd dir i False = ([], Inl e))\<close>
proof -
  let ?ph = "''<p>[Image processing failed for slide '' @ str_int (int i + 1) @
             '', shape '' @ str_int (int j + 1) @ '']</p>''"
  have ph: "failure_fragment i j = ?ph" by (simp add: failure_fragment_def)
  have A: "process_shape_data env j sd dir i False =
             ([LogWarning (failure_warning i j e)], Inr ?ph)"
    if "b64decode env b64 = Inr bytes"
      and "image_save env bytes (os_path_join dir (image_filename i j)) = Some e"
      and "exn_class_of e = OSError" for bytes e
    using that assms(3) by (simp add: picture_case [OF assms(1,2)] ph)
  have D: "process_slide env (pre @ sd # post) dir i False =
             (evs0 @ LogWarning (failure_warning i j e) # evs1,
              Inr (concat fs0 @ ?ph @ concat fs1))"
    if a: "process_shape_data env j sd dir i False =
             ([LogWarning (failure_warning i j e)], Inr ?ph)"
      and j: "j = length pre"
      and p: "process_shapes env 0 pre dir i False = (evs0, Inr fs0)"
      and q: "process_shapes env (Suc j) post dir i False = (evs1, Inr fs1)"
    for e pre post evs0 fs0 evs1 fs1
  proof -
    have "process_shapes env (length pre) (sd # post) dir i False =
            (LogWarning (failure_warning i j e) # evs1, Inr (?ph # fs1))"
      using a q j by (simp add: ret_def)
    with process_shapes_append [OF p, of "sd # post"] show ?thesis
      by (simp add: process_slide_def ret_def)
  qed
  have E: "snd (pptx_to_html env f slides out False schedule) = assemble (frags[i := F])"
    if s: "process_slide env (pre @ sd # post) dir i False = (evs, Inr F)"
      and c: "completion_order (length slides) schedule" and i: "i < length slides"
      and d: "dir = os_path_join (os_path_dirname out) ''images''"
      and x: "snd (extract_slide_data env (slides ! i)) = pre @ sd # post"
      and l: "length frags = length slides"
      and r: "\<forall>k<length slides. k \<noteq> i \<longrightarrow>
               snd (process_slide env (snd (extract_slide_data env (slides ! k))) dir k False) =
                 Inr (frags ! k)"
    for pre post evs F slides f out schedule frags
  proof (rule html_by_slides [OF c])
    show "length (frags[i := F]) = length slides" using l by simp
    show "\<forall>k<length slides.
            snd (process_slide env (snd (extract_slide_data env (slides ! k)))
                   (os_path_join (os_path_dirname out) ''images'') k False) =
            Inr (frags[i := F] ! k)"
    proof (intro allI impI)
      fix k assume k: "k < length slides"
      show "snd (process_slide env (snd (extract_slide_data env (slides ! k)))
                   (os_path_join (os_path_dirname out) ''images'') k False) =
            Inr (frags[i := F] ! k)"
      proof (cases "k = i")
        case True
        with s x d i l show ?thesis by simp
      next
        case False
        with r k d show ?thesis by simp
      qed
    qed
  qed
  have G: \<open>snd (pptx_to_html env f slides out False schedule) =
              html_header @
              concat (map (\<lambda>content.
                 ''<div class="slide bg-white shadow-lg rounded-lg"><div class="slide-content">'' @
                 content @ ''</div></div>'') (frags[i := concat fs0 @ ?ph @ concat fs1])) @
              ''</div></body></html>'' \<and>
            WriteFile out (snd (pptx_to_html env f slides out False schedule))
              \<in> set (fst (pptx_to_html env f slides out False schedule))\<close>
    if "b64decode env b64 = Inr bytes"
      and "image_save env bytes (os_path_join dir (image_filename i j)) = Some e"
      and "exn_class_of e = OSError" and "j = length pre"
      and "process_shapes env 0 pre dir i False = (evs0, Inr fs0)"
      and "process_shapes env (Suc j) post dir i False = (evs1, Inr fs1)"
      and "completion_order (length slides) schedule" and "i < length slides"
      and "dir = os_path_join (os_path_dirname out) ''images''"
      and "snd (extract_slide_data env (slides ! i)) = pre @ sd # post"
      and "length frags = length slides"
      and "\<forall>k<length slides. k \<noteq> i \<longrightarrow>
               snd (process_slide env (snd (extract_slide_data env (slides ! k))) dir k False) =
                 Inr (frags ! k)"
    for bytes e pre post evs0 fs0 evs1 fs1 slides f out schedule frags
  proof -
    note s = D [OF A [OF that(1-3)] that(4-6)]
    from E [OF s that(7-12)]
    have "snd (pptx_to_html env f slides out False schedule) =
            assemble (frags[i := concat fs0 @ ?ph @ concat fs1])" .
    then have \<open>snd (pptx_to_html env f slides out False schedule) =
              html_header @
              concat (map (\<lambda>content.
                 ''<div class="slide bg-white shadow-lg rounded-lg"><div class="slide-content">'' @
                 content @ ''</div></div>'') (frags[i := concat fs0 @ ?ph @ concat fs1])) @
              ''</div></body></html>''\<close>
      by (rule trans) (rule assemble_text)
    then show ?thesis using written_output by (rule conjI)
  qed
  have B: "process_shape_data env j sd dir i False = ([], Inl e)"
    if "b64decode env b64 = Inr bytes"
      and "image_save env bytes (os_path_join dir (image_filename i j)) = Some e"
      and "exn_class_of e \<noteq> OSError" for bytes e
    using that assms(3) by (simp add: picture_case [OF assms(1,2)])
  have C: "process_shape_data env j sd dir i False = ([], Inl e)"
    if "b64decode env b64 = Inl e" for e
    using that assms(3) by (simp add: picture_case [OF assms(1,2)])
  show ?thesis
  proof (intro conjI allI impI; (elim conjE)?)
    fix bytes e
    assume "b64decode env b64 = Inr bytes"
      "image_save env bytes (os_path_join dir (image_filename i j)) = Some e"
      "exn_class_of e = OSError"
    then show "process_shape_data env j sd dir i False =
                 ([LogWarning (failure_warning i j e)], Inr ?ph)" by (rule A)
  next
    fix bytes e pre post evs0 fs0 evs1 fs1
    assume h: "b64decode env b64 = Inr bytes"
      "image_save env bytes (os_path_join dir (image_filename i j)) = Some e"
      "exn_class_of e = OSError"
      and g: "j = length pre" "process_shapes env 0 pre dir i False = (evs0, Inr fs0)"
      "process_shapes env (Suc j) post dir i False = (evs1, Inr fs1)"
    show "process_slide env (pre @ sd # post) dir i False =
            (evs0 @ LogWarning (failure_warning i j e) # evs1,
             Inr (concat fs0 @
                    ''<p>[Image processing failed for slide '' @ str_int (int i + 1) @
                    '', shape '' @ str_int (int j + 1) @ '']</p>'' @ concat fs1))"
      using D [OF A [OF h] g] by simp
  next
    fix bytes e pre post evs0 fs0 evs1 fs1 slides f out schedule frags
    assume "b64decode env b64 = Inr bytes"
      "image_save env bytes (os_path_join dir (image_filename i j)) = Some e"
      "exn_class_of e = OSError" "j = length pre"
      "process_shapes env 0 pre dir i False = (evs0, Inr fs0)"
      "process_shapes env (Suc j) post dir i False = (evs1, Inr fs1)"
      "completion_order (length slides) schedule" "i < length slides"
      "dir = os_path_join (os_path_dirname out) ''images''"
      "snd (extract_slide_data env (slides ! i)) = pre @ sd # post"
      "length frags = length slides"
      "\<forall>k<length slides. k \<noteq> i \<longrightarrow>
               snd (process_slide env (snd (extract_slide_data env (slides ! k))) dir k False) =
                 Inr (frags ! k)"
    note g = G [OF this]
    from g show \<open>snd (pptx_to_html env f slides out False schedule) =
              html_header @
              concat (map (\<lambda>content.
                 ''<div class="slide bg-white shadow-lg rounded-lg"><div class="slide-content">'' @
                 content @ ''</div></div>'') (frags[i := concat fs0 @
                    ''<p>[Image processing failed for slide '' @ str_int (int i + 1) @
                    '', shape '' @ str_int (int j + 1) @ '']</p>'' @ concat fs1])) @
              ''</div></body></html>''\<close> by simp
    from g show \<open>WriteFile out (snd (pptx_to_html env f slides out False schedule))
              \<in> set (fst (pptx_to_html env f slides out False schedule))\<close> by (rule conjunct2)
  next
    fix bytes e
    assume "b64decode env b64 = Inr bytes"
      "image_save env bytes (os_path_join dir (image_filename i j)) = Some e"
      "exn_class_of e \<noteq> OSError"
    then show "process_shape_data env j sd dir i False = ([], Inl e)" by (rule B)
  next
    fix e
    assume "b64decode env b64 = Inl e"
    then show "process_shape_data env j sd dir i False = ([], Inl e)" by (rule C)
  qed
qed

theorem C5_only_oserror_gives_placeholder_witness:
  \<open>process_shape_data env_oserror 1 picture_shape ''out/images'' 1 False =
     ([LogWarning ''Failed to process image on slide 2, shape 2: cannot identify image file''],
      Inr ''<p>[Image processing failed for slide 2, shape 2]</p>'') \<and>
   process_slide env_oserror [full_slide_shape, picture_shape, full_slide_shape]
       ''out/images'' 1 False =
     ([LogWarning ''Failed to process image on slide 2, shape 2: cannot identify image file''],
      Inr (hello_fragment @ ''<p>[Image processing failed for slide 2, shape 2]</p>'' @
           hello_fragment)) \<and>
   completion_order (length failing_deck) [1, 0] \<and>
   snd (extract_slide_data env_oserror (failing_deck ! 1)) =
     [full_slide_shape, picture_shape, full_slide_shape] \<and>
   snd (pptx_to_html env_oserror ''deck.pptx'' failing_deck ''out/deck.html'' False [1, 0]) =
     html_header @
     ''<div class="slide bg-white shadow-lg rounded-lg"><div class="slide-content">'' @
     hello_fragment @ ''</div></div>'' @
     ''<div class="slide bg-white shadow-lg rounded-lg"><div class="slide-content">'' @
     hello_fragment @ ''<p>[Image processing failed for slide 2, shape 2]</p>'' @
     hello_fragment @ ''</div></div>'' @
     ''</div></body></html>'' \<and>
   WriteFile ''out/deck.html''
       (snd (pptx_to_html env_oserror ''deck.pptx'' failing_deck ''out/deck.html'' False [1, 0]))
     \<in> set (fst (pptx_to_html env_oserror ''deck.pptx'' failing_deck ''out/deck.html'' False
                    [1, 0])) \<and>
   process_shape_data env_bomb 1 picture_shape ''out/images'' 1 False =
     ([], Inl (Exn OtherException ''Image size exceeds limit'')) \<and>
   process_shape_data env_bad_base64 1 picture_shape ''out/images'' 1 False =
     ([], Inl (Exn OtherException ''Incorrect padding''))\<close>
proof -
  have b: "image_b64 picture_shape = Some ''iVBORw0KGgo=''"
    by (simp add: picture_shape_def full_slide_shape_def)
  note T = C5_only_oserror_gives_placeholder [OF picture_shape_type common_style_picture b,
      where dir = "''out/images''" and i = "Suc 0" and j = "Suc 0"]
  note T_os = T [where env = env_oserror]
  have os: "b64decode env_oserror ''iVBORw0KGgo='' = Inr ''iVBORw0KGgo='' \<and>
      image_save env_oserror ''iVBORw0KGgo=''
        (os_path_join ''out/images'' (image_filename (Suc 0) (Suc 0))) =
        Some (Exn OSError ''cannot identify image file'') \<and>
      exn_class_of (Exn OSError ''cannot identify image file'') = OSError"
    by (simp add: env_oserror_def env_ok_def)
  have sl: "Suc 0 = length [full_slide_shape]"
    "process_shapes env_oserror 0 [full_slide_shape] ''out/images'' (Suc 0) False =
       ([], Inr [hello_fragment])"
    "process_shapes env_oserror (Suc (Suc 0)) [full_slide_shape] ''out/images'' (Suc 0) False =
       ([], Inr [hello_fragment])"
    by (simp_all add: text_shape_fragment ret_def)
  have r: "\<forall>k<length failing_deck. k \<noteq> Suc 0 \<longrightarrow>
      snd (process_slide env_oserror (snd (extract_slide_data env_oserror (failing_deck ! k)))
             ''out/images'' k False) = Inr ([hello_fragment, []] ! k)"
  proof (intro allI impI)
    fix k assume "k < length failing_deck" and "k \<noteq> Suc 0"
    then have "k = 0" by (simp add: failing_deck_def)
    then show "snd (process_slide env_oserror
                 (snd (extract_slide_data env_oserror (failing_deck ! k)))
                 ''out/images'' k False) = Inr ([hello_fragment, []] ! k)"
      by (simp add: extract_first_slide process_slide_def text_shape_fragment ret_def)
  qed
  have dk: "Suc 0 < length failing_deck"
    "''out/images'' = os_path_join (os_path_dirname ''out/deck.html'') ''images''"
    "length [hello_fragment, []] = length failing_deck"
    by (simp_all add: image_dir_example failing_deck_def)
  note os1 = os [THEN conjunct1] and os2 = os [THEN conjunct2, THEN conjunct1]
    and os3 = os [THEN conjunct2, THEN conjunct2]
  have h2: "b64decode env_oserror ''iVBORw0KGgo='' = Inr ''iVBORw0KGgo='' \<and>
      image_save env_oserror ''iVBORw0KGgo=''
        (os_path_join ''out/images'' (image_filename (Suc 0) (Suc 0))) =
        Some (Exn OSError ''cannot identify image file'') \<and>
      exn_class_of (Exn OSError ''cannot identify image file'') = OSError \<and>
      Suc 0 = length [full_slide_shape] \<and>
      process_shapes env_oserror 0 [full_slide_shape] ''out/images'' (Suc 0) False =
        ([], Inr [hello_fragment]) \<and>
      process_shapes env_oserror (Suc (Suc 0)) [full_slide_shape] ''out/images'' (Suc 0) False =
        ([], Inr [hello_fragment])"
    by (intro conjI) (rule os1 os2 os3 sl)+
  have h3: "b64decode env_oserror ''iVBORw0KGgo='' = Inr ''iVBORw0KGgo='' \<and>
      image_save env_oserror ''iVBORw0KGgo=''
        (os_path_join ''out/images'' (image_filename (Suc 0) (Suc 0))) =
        Some (Exn OSError ''cannot identify image file'') \<and>
      exn_class_of (Exn OSError ''cannot identify image file'') = OSError \<and>
      Suc 0 = length [full_slide_shape] \<and>
      process_shapes env_oserror 0 [full_slide_shape] ''out/images'' (Suc 0) False =
        ([], Inr [hello_fragment]) \<and>
      process_shapes env_oserror (Suc (Suc 0)) [full_slide_shape] ''out/images'' (Suc 0) False =
        ([], Inr [hello_fragment]) \<and>
      completion_order (length failing_deck) [1, 0] \<and> Suc 0 < length failing_deck \<and>
      ''out/images'' = os_path_join (os_path_dirname ''out/deck.html'') ''images'' \<and>
      snd (extract_slide_data env_oserror (failing_deck ! Suc 0)) =
        [full_slide_shape] @ picture_shape # [full_slide_shape] \<and>
      length [hello_fragment, []] = length failing_deck \<and>
      (\<forall>k<length failing_deck. k \<noteq> Suc 0 \<longrightarrow>
        snd (process_slide env_oserror (snd (extract_slide_data env_oserror (failing_deck ! k)))
               ''out/images'' k False) = Inr ([hello_fragment, []] ! k))"
    by (intro conjI)
       (rule os1 os2 os3 sl completion_order_10 dk extract_failing_slide r)+
  note p1 = T_os [THEN conjunct1, rule_format, OF os]
  note p2 = T_os [THEN conjunct2, THEN conjunct1, rule_format, OF h2]
  note p3 = T_os [THEN conjunct2, THEN conjunct2, THEN conjunct1, rule_format, OF h3,
      where f = "''deck.pptx''"]
  have bo: "b64decode env_bomb ''iVBORw0KGgo='' = Inr ''iVBORw0KGgo='' \<and>
      image_save env_bomb ''iVBORw0KGgo=''
        (os_path_join ''out/images'' (image_filename (Suc 0) (Suc 0))) =
        Some (Exn OtherException ''Image size exceeds limit'') \<and>
      exn_class_of (Exn OtherException ''Image size exceeds limit'') \<noteq> OSError"
    by (simp add: env_bomb_def env_ok_def)
  note p4 = T [where env = env_bomb, THEN conjunct2, THEN conjunct2, THEN conjunct2,
      THEN conjunct1, rule_format, OF bo]
  have bd: "b64decode env_bad_base64 ''iVBORw0KGgo='' =
      Inl (Exn OtherException ''Incorrect padding'')"
    by (simp add: env_bad_base64_def env_ok_def)
  note p5 = T [where env = env_bad_base64, THEN conjunct2, THEN conjunct2, THEN conjunct2,
      THEN conjunct2, rule_format, OF bd]
  from p3 have p3a: \<open>snd (pptx_to_html env_oserror ''deck.pptx'' failing_deck ''out/deck.html''
                          False [1, 0]) =
     html_header @
     ''<div class="slide bg-white shadow-lg rounded-lg"><div class="slide-content">'' @
     hello_fragment @ ''</div></div>'' @
     ''<div class="slide bg-white shadow-lg rounded-lg"><div class="slide-content">'' @
     hello_fragment @ ''<p>[Image processing failed for slide 2, shape 2]</p>'' @
     hello_fragment @ ''</div></div>'' @
     ''</div></body></html>''\<close>
    by (simp add: failure_texts)
  from p3 have p3b: \<open>WriteFile ''out/deck.html''
       (snd (pptx_to_html env_oserror ''deck.pptx'' failing_deck ''out/deck.html'' False [1, 0]))
     \<in> set (fst (pptx_to_html env_oserror ''deck.pptx'' failing_deck ''out/deck.html'' False
                    [1, 0]))\<close>
    by (rule conjunct2)
  from p1 have q1: "process_shape_data env_oserror 1 picture_shape ''out/images'' 1 False =
     ([LogWarning ''Failed to process image on slide 2, shape 2: cannot identify image file''],
      Inr ''<p>[Image processing failed for slide 2, shape 2]</p>'')"
    by (simp add: failure_texts)
  from p2 have q2: "process_slide env_oserror [full_slide_shape, picture_shape, full_slide_shape]
       ''out/images'' 1 False =
     ([LogWarning ''Failed to process image on slide 2, shape 2: cannot identify image file''],
      Inr (hello_fragment @ ''<p>[Image processing failed for slide 2, shape 2]</p>'' @
           hello_fragment))"
    by (simp add: failure_texts)
  from extract_failing_slide
  have x: "snd (extract_slide_data env_oserror (failing_deck ! 1)) =
     [full_slide_shape, picture_shape, full_slide_shape]" by simp
  from p4 have q4: "process_shape_data env_bomb 1 picture_shape ''out/images'' 1 False =
     ([], Inl (Exn OtherException ''Image size exceeds limit''))" by simp
  from p5 have q5: "process_shape_data env_bad_base64 1 picture_shape ''out/images'' 1 False =
     ([], Inl (Exn OtherException ''Incorrect padding''))" by simp
  from q1 q2 completion_order_10 x p3a p3b q4 q5 show ?thesis by (intro conjI)
qed

end
